theory Spec2Isabelle
  imports Main
begin

section \<open>Python values and exceptions\<close>

text \<open>
  Every exception of the model is a subclass of Python's \<open>Exception\<close>, which is what the
  handlers \<open>except Exception\<close> of the source catch. \<open>JSONDecodeError\<close> and
  \<open>FileNotFoundError\<close> are the two classes named by the narrow handlers of
  \<open>load_last_checked_tweet_id\<close> and \<open>has_responded_to_tweet\<close>. \<open>SendFailed\<close> is the
  \<open>Exception("Failed to send tweet: Status ... - ...")\<close> of \<open>send_tweet\<close>, with the status
  code and the body. \<open>OtherException\<close> stands for any other exception class a collaborator
  raises (a connection error, a cookie conflict, an error of the vector store).
\<close>

datatype exn =
    AttributeError
  | TypeError
  | ValueError
  | KeyError
  | IndexError
  | FileNotFoundError
  | JSONDecodeError
  | SendFailed int string
  | OtherException string

subsection \<open>The builtin \<open>int\<close> on strings\<close>

text \<open>
  \<open>int(s)\<close> for a \<open>str\<close>: surrounding whitespace is stripped, one sign is allowed, then
  decimal digits, with single underscores allowed between digits; anything else is a
  \<open>ValueError\<close>. \<open>int(None)\<close> is a \<open>TypeError\<close>. Characters are ASCII here.
\<close>

definition py_isspace :: "char \<Rightarrow> bool" where
  "py_isspace c = (of_char c \<in> set [9, 10, 11, 12, 13, 28, 29, 30, 31, 32 :: nat])"

definition py_strip :: "string \<Rightarrow> string" where
  "py_strip s = rev (dropWhile py_isspace (rev (dropWhile py_isspace s)))"

definition py_digit :: "char \<Rightarrow> nat option" where
  "py_digit c = (let n = (of_char c :: nat) in if 48 \<le> n \<and> n \<le> 57 then Some (n - 48) else None)"

fun py_digits :: "nat \<Rightarrow> string \<Rightarrow> nat option" where
  "py_digits acc [] = Some acc"
| "py_digits acc [c] = (case py_digit c of None \<Rightarrow> None | Some v \<Rightarrow> Some (10 * acc + v))"
| "py_digits acc (c # d # ds) =
     (if c = CHR ''_'' then
        (case py_digit d of None \<Rightarrow> None | Some v \<Rightarrow> py_digits (10 * acc + v) ds)
      else (case py_digit c of None \<Rightarrow> None | Some v \<Rightarrow> py_digits (10 * acc + v) (d # ds)))"

definition py_unsigned :: "string \<Rightarrow> exn + nat" where
  "py_unsigned s =
     (case s of
        [] \<Rightarrow> Inl ValueError
      | d # ds \<Rightarrow>
          (case py_digit d of
             None \<Rightarrow> Inl ValueError
           | Some v \<Rightarrow> (case py_digits v ds of None \<Rightarrow> Inl ValueError | Some n \<Rightarrow> Inr n)))"

definition py_int_str :: "string \<Rightarrow> exn + int" where
  "py_int_str s =
     (case py_strip s of
        [] \<Rightarrow> Inl ValueError
      | c # cs \<Rightarrow>
          if c = CHR ''-'' then
            (case py_unsigned cs of Inl e \<Rightarrow> Inl e | Inr n \<Rightarrow> Inr (- int n))
          else if c = CHR ''+'' then
            (case py_unsigned cs of Inl e \<Rightarrow> Inl e | Inr n \<Rightarrow> Inr (int n))
          else
            (case py_unsigned (c # cs) of Inl e \<Rightarrow> Inl e | Inr n \<Rightarrow> Inr (int n)))"

definition py_int :: "string option \<Rightarrow> exn + int" where
  "py_int v = (case v of None \<Rightarrow> Inl TypeError | Some s \<Rightarrow> py_int_str s)"

text \<open>\<open>str(v)\<close> inside an f-string, for a value that is a \<open>str\<close> or \<open>None\<close>.\<close>

definition py_str :: "string option \<Rightarrow> string" where
  "py_str v = (case v of None \<Rightarrow> ''None'' | Some s \<Rightarrow> s)"

text \<open>Truthiness of a value that is a \<open>str\<close> or \<open>None\<close>.\<close>

definition py_truthy :: "string option \<Rightarrow> bool" where
  "py_truthy v = (case v of None \<Rightarrow> False | Some s \<Rightarrow> s \<noteq> [])"

subsection \<open>Decoded JSON\<close>

text \<open>
  What \<open>response.json()\<close> returns: \<open>JNull\<close> is Python's \<open>None\<close>, an object is a
  \<open>dict\<close> (an association list; the first binding of a key is the one \<open>get\<close> sees),
  an array is a \<open>list\<close>. A number is carried as an integer: the functions below only
  look at whether a number is zero.
\<close>

datatype json =
    JNull
  | JBool bool
  | JNum int
  | JStr string
  | JArr "json list"
  | JObj "(string \<times> json) list"

text \<open>\<open>not v\<close> is true for \<open>None\<close>, \<open>False\<close>, zero and the empty string, list and dict.\<close>

fun json_truthy :: "json \<Rightarrow> bool" where
  "json_truthy JNull = False"
| "json_truthy (JBool b) = b"
| "json_truthy (JNum n) = (n \<noteq> 0)"
| "json_truthy (JStr s) = (s \<noteq> [])"
| "json_truthy (JArr xs) = (xs \<noteq> [])"
| "json_truthy (JObj kvs) = (kvs \<noteq> [])"

text \<open>
  \<open>v.get(k, d)\<close>: only a \<open>dict\<close> has the method; on any other value the attribute
  lookup raises \<open>AttributeError\<close>.
\<close>

fun json_get :: "json \<Rightarrow> string \<Rightarrow> json \<Rightarrow> exn + json" where
  "json_get (JObj kvs) k d = Inr (case map_of kvs k of None \<Rightarrow> d | Some v \<Rightarrow> v)"
| "json_get _ k d = Inl AttributeError"

text \<open>
  \<open>for x in v\<close>: a list gives its elements, a dict its keys, a string its characters
  (each a string of length one); \<open>None\<close>, a bool and a number are not iterable.
\<close>

fun json_iter :: "json \<Rightarrow> exn + json list" where
  "json_iter (JArr xs) = Inr xs"
| "json_iter (JObj kvs) = Inr (map (\<lambda>k. JStr k) (remdups (map fst kvs)))"
| "json_iter (JStr s) = Inr (map (\<lambda>c. JStr [c]) s)"
| "json_iter _ = Inl TypeError"

text \<open>\<open>v.startswith(p)\<close>: a method of \<open>str\<close> only.\<close>

fun json_startswith :: "json \<Rightarrow> string \<Rightarrow> exn + bool" where
  "json_startswith (JStr s) p = Inr (take (length p) s = p)"
| "json_startswith _ p = Inl AttributeError"

record http_response =
  status_code :: int
  resp_text :: string
  json_body :: "exn + json"

section \<open>The world outside the process\<close>

text \<open>
  A tweet as \<open>check_mentions\<close> reads it, with the four keys it looks at. The values are the
  strings \<open>id_str\<close>, \<open>full_text\<close>, \<open>screen_name\<close> and \<open>created_at\<close> of the platform's
  payload, or \<open>None\<close> where \<open>search_tweets\<close> found no such key.
\<close>

record tweet =
  tid :: "string option"
  tweet_text :: "string option"
  username :: "string option"
  created_at :: "string option"

text \<open>The \<open>log_entry\<close> dictionary of \<open>log_response\<close>.\<close>

record log_entry =
  timestamp :: string
  original_tweet_id :: "string option"
  response_tweet_id :: string
  tweet_content :: "string option"
  response_text :: string

text \<open>
  The state that outlives a call: \<open>store\<close> is the collection \<open>tweet_responses\<close> of the
  vector store (ids, documents and metadata, in insertion order); \<open>posted\<close> lists the
  tweets the platform accepted (status 200), each with its text and the id it replies to;
  \<open>processing\<close> is the console line \<open>Processing tweet <id> from @<username>\<close>, one id per
  candidate that entered the reply pipeline.
\<close>

record world =
  store :: "(string option \<times> string option \<times> log_entry) list"
  posted :: "(string \<times> string option) list"
  processing :: "string option list"

type_synonym 'a result = "(exn + 'a) \<times> world"

text \<open>
  The vector-store client (\<open>chromadb\<close>, an external library). Its calls may raise: each
  field gives the exception a call raises, if any. \<open>collection.get(ids=[k])\<close> returns the
  stored records whose id is \<open>k\<close>; \<open>collection.add\<close> appends a record and ignores an
  id that is already there.
\<close>

record chroma =
  get_or_create_collection_raises :: "exn option"
  get_raises :: "string option \<Rightarrow> exn option"
  add_raises :: "string option \<Rightarrow> exn option"

definition collection_get :: "world \<Rightarrow> string option \<Rightarrow> string option list" where
  "collection_get w k = filter (\<lambda>i. i = k) (map fst (store w))"

definition collection_add :: "world \<Rightarrow> string option \<Rightarrow> string option \<Rightarrow> log_entry \<Rightarrow> world" where
  "collection_add w k doc meta =
     (if k \<in> set (map fst (store w)) then w else w\<lparr>store := store w @ [(k, doc, meta)]\<rparr>)"

section \<open>twitterClient.py\<close>

text \<open>
  The \<open>requests\<close> session of a \<open>TwitterClient\<close>, as the three calls the client makes on
  it: the cookie lookup of \<open>get_csrf_token\<close> (the jar raises when two cookies match), the
  GET of \<open>search_tweets\<close> (query and count) and the POST of \<open>send_tweet\<close> (text and the id
  replied to). Each may raise, and may answer differently as the world changes.
\<close>

record session =
  csrf_token :: "world \<Rightarrow> exn + string option"
  http_get :: "world \<Rightarrow> string \<Rightarrow> int \<Rightarrow> exn + http_response"
  http_post :: "world \<Rightarrow> string \<Rightarrow> string option \<Rightarrow> exn + http_response"

record follower =
  follower_username :: "string option"
  description :: "string option"

text \<open>
  A client object. \<open>search_tweets_result\<close> is what \<open>search_tweets(term, max_tweets=20)\<close>
  hands to \<open>check_mentions\<close>, typed as the \<open>tweet\<close> record. \<open>get_followers\<close> is the
  attribute of that name, when the object has one.
\<close>

record client =
  client_username :: "string option"
  client_session :: session
  search_tweets_result :: "world \<Rightarrow> string \<Rightarrow> exn + tweet list"
  get_followers :: "(world \<Rightarrow> string option \<Rightarrow> exn + follower list) option"

text \<open>
  The names class \<open>TwitterClient\<close> defines (methods and class attributes) and the
  attributes \<open>__init__\<close> sets on an instance.
\<close>

definition TwitterClient_attributes :: "string list" where
  "TwitterClient_attributes =
     [''BASE_URL'', ''API_URL'', ''__init__'', ''_get_default_features'', ''_setup_cookies'',
      ''get_csrf_token'', ''_update_headers_with_csrf'', ''search_tweets'', ''send_tweet'',
      ''get_tweet'', ''get_user_tweets'',
      ''username'', ''password'', ''email'', ''poll_interval'', ''session'', ''bearer_token'',
      ''chroma_client'']"

text \<open>
  An instance of \<open>TwitterClient\<close>: it has the attribute \<open>get_followers\<close> only if the class
  or \<open>__init__\<close> gives it one.
\<close>

definition TwitterClient ::
  "string option \<Rightarrow> session \<Rightarrow> (world \<Rightarrow> string \<Rightarrow> exn + tweet list) \<Rightarrow>
   (world \<Rightarrow> string option \<Rightarrow> exn + follower list) \<Rightarrow> client" where
  "TwitterClient name sess search followers =
     \<lparr>client_username = name, client_session = sess, search_tweets_result = search,
      get_followers =
        (if ''get_followers'' \<in> set TwitterClient_attributes then Some followers else None)\<rparr>"

text \<open>\<open>_update_headers_with_csrf\<close>: the lookup may raise; the header update itself does not.\<close>

definition update_headers_with_csrf :: "session \<Rightarrow> world \<Rightarrow> exn + unit" where
  "update_headers_with_csrf sess w =
     (case csrf_token sess w of Inl e \<Rightarrow> Inl e | Inr tok \<Rightarrow> Inr ())"

text \<open>
  \<open>send_tweet\<close>. A status other than 200 raises; on status 200 the tweet is on the platform,
  and the method returns \<open>response.json()\<close>, which raises when the body is not JSON.
\<close>

definition send_tweet :: "client \<Rightarrow> world \<Rightarrow> string \<Rightarrow> string option \<Rightarrow> json result" where
  "send_tweet c w txt reply_to_tweet_id =
     (case update_headers_with_csrf (client_session c) w of
        Inl e \<Rightarrow> (Inl e, w)
      | Inr u \<Rightarrow>
          (let reply = (if py_truthy reply_to_tweet_id then reply_to_tweet_id else None) in
           case http_post (client_session c) w txt reply of
             Inl e \<Rightarrow> (Inl e, w)
           | Inr response \<Rightarrow>
               if status_code response \<noteq> 200
               then (Inl (SendFailed (status_code response) (resp_text response)), w)
               else (json_body response, w\<lparr>posted := posted w @ [(txt, reply)]\<rparr>)))"

subsection \<open>\<open>search_tweets\<close>\<close>

definition ebind :: "exn + 'a \<Rightarrow> ('a \<Rightarrow> exn + 'b) \<Rightarrow> exn + 'b" where
  "ebind m f = (case m of Inl e \<Rightarrow> Inl e | Inr x \<Rightarrow> f x)"

text \<open>The dictionary \<open>search_tweets\<close> builds for one entry; a missing key gives \<open>None\<close>.\<close>

record raw_tweet =
  rt_id :: json
  rt_text :: json
  rt_username :: json
  rt_name :: json
  rt_user_id :: json
  rt_created_at :: json
  rt_conversation_id :: json
  rt_in_reply_to_status_id :: json
  rt_in_reply_to_user_id :: json

text \<open>\<open>v.get(k1, {}).get(k2, {})...\<close>, each step with the default \<open>{}\<close>.\<close>

fun get_chain :: "json \<Rightarrow> string list \<Rightarrow> exn + json" where
  "get_chain v [] = Inr v"
| "get_chain v (k # ks) = ebind (json_get v k (JObj [])) (\<lambda>v'. get_chain v' ks)"

definition make_tweet :: "json \<Rightarrow> json \<Rightarrow> exn + raw_tweet" where
  "make_tweet legacy user_legacy =
     ebind (json_get legacy ''id_str'' JNull) (\<lambda>a.
     ebind (json_get legacy ''full_text'' JNull) (\<lambda>b.
     ebind (json_get user_legacy ''screen_name'' JNull) (\<lambda>c.
     ebind (json_get user_legacy ''name'' JNull) (\<lambda>d.
     ebind (json_get user_legacy ''id_str'' JNull) (\<lambda>e.
     ebind (json_get legacy ''created_at'' JNull) (\<lambda>f.
     ebind (json_get legacy ''conversation_id_str'' JNull) (\<lambda>g.
     ebind (json_get legacy ''in_reply_to_status_id_str'' JNull) (\<lambda>h.
     ebind (json_get legacy ''in_reply_to_user_id_str'' JNull) (\<lambda>i.
       Inr \<lparr>rt_id = a, rt_text = b, rt_username = c, rt_name = d, rt_user_id = e,
            rt_created_at = f, rt_conversation_id = g, rt_in_reply_to_status_id = h,
            rt_in_reply_to_user_id = i\<rparr>)))))))))"

text \<open>The body of the loop over entries: \<open>None\<close> is a \<open>continue\<close>.\<close>

definition entry_tweet :: "json \<Rightarrow> exn + raw_tweet option" where
  "entry_tweet entry =
     ebind (json_get entry ''entryId'' (JStr [])) (\<lambda>entry_id.
     ebind (json_startswith entry_id ''tweet-'') (\<lambda>is_tweet.
       if \<not> is_tweet then Inr None
       else
         ebind (get_chain entry [''content'', ''itemContent'', ''tweet_results'', ''result''])
           (\<lambda>result.
         if \<not> json_truthy result then Inr None
         else
           ebind (json_get result ''legacy'' (JObj [])) (\<lambda>legacy.
           ebind (get_chain result [''core'', ''user_results'', ''result'']) (\<lambda>user_result.
           ebind (json_get user_result ''legacy'' (JObj [])) (\<lambda>user_legacy.
             if \<not> json_truthy legacy \<or> \<not> json_truthy user_legacy then Inr None
             else ebind (make_tweet legacy user_legacy) (\<lambda>t. Inr (Some t))))))))"

fun entries_loop :: "json list \<Rightarrow> raw_tweet list \<Rightarrow> exn + raw_tweet list" where
  "entries_loop [] tweets = Inr tweets"
| "entries_loop (entry # entries) tweets =
     ebind (entry_tweet entry) (\<lambda>r.
       case r of None \<Rightarrow> entries_loop entries tweets
       | Some t \<Rightarrow> entries_loop entries (tweets @ [t]))"

fun instructions_loop :: "json list \<Rightarrow> raw_tweet list \<Rightarrow> exn + raw_tweet list" where
  "instructions_loop [] tweets = Inr tweets"
| "instructions_loop (instruction # instructions) tweets =
     ebind (json_get instruction ''type'' JNull) (\<lambda>ty.
       if ty = JStr ''TimelineAddEntries'' then
         ebind (json_get instruction ''entries'' (JArr [])) (\<lambda>entries.
         ebind (json_iter entries) (\<lambda>es.
         ebind (entries_loop es tweets) (\<lambda>tweets'.
           instructions_loop instructions tweets')))
       else instructions_loop instructions tweets)"

text \<open>The statements inside the \<open>try\<close> of \<open>search_tweets\<close>.\<close>

definition search_tweets_try :: "session \<Rightarrow> world \<Rightarrow> string \<Rightarrow> int \<Rightarrow> exn + raw_tweet list" where
  "search_tweets_try sess w query max_tweets =
     ebind (http_get sess w query (min max_tweets 40)) (\<lambda>response.
       if status_code response \<noteq> 200 then Inr []
       else
         ebind (json_body response) (\<lambda>data.
         ebind (get_chain data [''data'', ''search_by_raw_query'', ''search_timeline'', ''timeline''])
           (\<lambda>timeline.
         ebind (json_get timeline ''instructions'' (JArr [])) (\<lambda>instructions.
         ebind (json_iter instructions) (\<lambda>is.
           instructions_loop is [])))))"

text \<open>
  \<open>search_tweets\<close>: the header update runs before the \<open>try\<close>; \<open>except Exception\<close> turns
  every exception of the \<open>try\<close> into the empty list.
\<close>

definition search_tweets :: "session \<Rightarrow> world \<Rightarrow> string \<Rightarrow> int \<Rightarrow> exn + raw_tweet list" where
  "search_tweets sess w query max_tweets =
     (case update_headers_with_csrf sess w of
        Inl e \<Rightarrow> Inl e
      | Inr u \<Rightarrow>
          (case search_tweets_try sess w query max_tweets of
             Inl e \<Rightarrow> Inr []
           | Inr tweets \<Rightarrow> Inr tweets))"

section \<open>twitterInteractions.py\<close>

text \<open>
  What the handler takes from outside the repository: \<open>datetime.strptime\<close> with the format
  \<open>%a %b %d %H:%M:%S %z %Y\<close> (an instant in microseconds since the epoch, always
  timezone-aware since the format demands \<open>%z\<close>, or the exception), the prompt builder
  \<open>helpers.getTweetResponsePrompt\<close>, the clock of \<open>log_response\<close> and the index
  \<open>random.choice\<close> draws in a sequence of the given length.
\<close>

record externals =
  strptime :: "string \<Rightarrow> exn + int"
  getTweetResponsePrompt :: "string option \<Rightarrow> string option \<Rightarrow> string \<Rightarrow> exn + string"
  isoformat_now :: "world \<Rightarrow> string"
  random_index :: "world \<Rightarrow> nat \<Rightarrow> nat"

text \<open>
  \<open>self.response_generator\<close>: the callable given to \<open>__init__\<close>, or the bound method
  \<open>default_response\<close>.
\<close>

datatype generator =
    DefaultResponse
  | Generator "world \<Rightarrow> string \<Rightarrow> string \<Rightarrow> exn + string"

record handler =
  client :: client
  response_generator :: generator
  last_checked_tweet_id :: "int option"
  chroma_client :: "chroma option"
  start_time :: int
  search_terms :: "string list"
  reply_targets :: "(string \<times> string) list list"
  getUserContext :: "(world \<Rightarrow> string option \<Rightarrow> exn + string) option"
  updateUserContext :: "(world \<Rightarrow> string option \<Rightarrow> string \<Rightarrow> string \<Rightarrow> exn option) option"
  fetchContext :: "(world \<Rightarrow> string \<Rightarrow> exn + string) option"

definition nl :: string where
  "nl = [CHR 0x0A]"

definition sp :: "nat \<Rightarrow> string" where
  "sp n = replicate n (CHR '' '')"

text \<open>
  \<open>load_last_checked_tweet_id\<close>, from the outcome of opening and decoding the file and
  reading its key: a missing or malformed file gives \<open>None\<close>, any other exception
  propagates.
\<close>

definition load_last_checked_tweet_id :: "exn + int option \<Rightarrow> exn + int option" where
  "load_last_checked_tweet_id file =
     (case file of
        Inl e \<Rightarrow> if e = FileNotFoundError \<or> e = JSONDecodeError then Inr None else Inl e
      | Inr v \<Rightarrow> Inr v)"

text \<open>\<open>timedelta(hours=24)\<close> in microseconds.\<close>

definition hours24 :: int where
  "hours24 = 24 * 60 * 60 * 1000000"

text \<open>
  \<open>__init__\<close>; \<open>now\<close> is what \<open>datetime.now(timezone.utc)\<close> returns during construction.
\<close>

definition init ::
  "client \<Rightarrow> (world \<Rightarrow> string \<Rightarrow> string \<Rightarrow> exn + string) option \<Rightarrow> chroma option \<Rightarrow>
   string list \<Rightarrow> (string \<times> string) list list \<Rightarrow>
   (world \<Rightarrow> string option \<Rightarrow> exn + string) option \<Rightarrow>
   (world \<Rightarrow> string \<Rightarrow> exn + string) option \<Rightarrow>
   (world \<Rightarrow> string option \<Rightarrow> string \<Rightarrow> string \<Rightarrow> exn option) option \<Rightarrow>
   exn + int option \<Rightarrow> int \<Rightarrow> exn + handler" where
  "init twitter_client rg chroma terms targets guc fc uuc file now =
     (case load_last_checked_tweet_id file of
        Inl e \<Rightarrow> Inl e
      | Inr cursor \<Rightarrow>
          Inr \<lparr>client = twitter_client,
               response_generator = (case rg of None \<Rightarrow> DefaultResponse | Some g \<Rightarrow> Generator g),
               last_checked_tweet_id = cursor,
               chroma_client = chroma,
               start_time = now - hours24,
               search_terms = terms,
               reply_targets = targets,
               getUserContext = guc,
               updateUserContext = uuc,
               fetchContext = fc\<rparr>)"

text \<open>
  \<open>log_response\<close>: nothing is written when \<open>chroma_client\<close> is \<open>None\<close>.
\<close>

definition log_response ::
  "handler \<Rightarrow> externals \<Rightarrow> world \<Rightarrow> string option \<Rightarrow> string \<Rightarrow> string option \<Rightarrow> string \<Rightarrow>
   unit result" where
  "log_response h x w orig_id resp_id content reply_text =
     (let entry = \<lparr>timestamp = isoformat_now x w, original_tweet_id = orig_id,
                    response_tweet_id = resp_id, tweet_content = content,
                    response_text = reply_text\<rparr> in
      case chroma_client h of
        None \<Rightarrow> (Inr (), w)
      | Some c \<Rightarrow>
          (case get_or_create_collection_raises c of
             Some e \<Rightarrow> (Inl e, w)
           | None \<Rightarrow>
               (case add_raises c orig_id of
                  Some e \<Rightarrow> (Inl e, w)
                | None \<Rightarrow> (Inr (), collection_add w orig_id content entry))))"

text \<open>
  The statements inside the \<open>try\<close> of \<open>has_responded_to_tweet\<close>: with \<open>chroma_client\<close>
  \<open>None\<close>, \<open>client.get_or_create_collection\<close> is an attribute lookup on \<open>None\<close>.
\<close>

definition has_responded_try :: "handler \<Rightarrow> world \<Rightarrow> string option \<Rightarrow> exn + bool" where
  "has_responded_try h w tweet_id =
     (case chroma_client h of
        None \<Rightarrow> Inl AttributeError
      | Some c \<Rightarrow>
          (case get_or_create_collection_raises c of
             Some e \<Rightarrow> Inl e
           | None \<Rightarrow>
               (case get_raises c tweet_id of
                  Some e \<Rightarrow> Inl e
                | None \<Rightarrow> Inr (length (collection_get w tweet_id) > 0))))"

text \<open>
  \<open>has_responded_to_tweet\<close>: the handler is
  \<open>except (FileNotFoundError, json.JSONDecodeError): return False\<close>.
\<close>

definition has_responded_to_tweet :: "handler \<Rightarrow> world \<Rightarrow> string option \<Rightarrow> exn + bool" where
  "has_responded_to_tweet h w tweet_id =
     (case has_responded_try h w tweet_id of
        Inl e \<Rightarrow> if e = FileNotFoundError \<or> e = JSONDecodeError then Inr False else Inl e
      | Inr b \<Rightarrow> Inr b)"

text \<open>
  \<open>default_response(self, tweet_text)\<close> and the names of its parameters after \<open>self\<close>.
\<close>

definition default_response :: "string \<Rightarrow> string" where
  "default_response ttext = ''Hi there! I'' @ [CHR 0x27] @ ''m Rice ''"

definition default_response_params :: "string list" where
  "default_response_params = [''tweet_text'']"

text \<open>
  The call \<open>self.response_generator(tweet_text, additionalContext=additionalContext)\<close>: a
  keyword that the callee does not declare is a \<open>TypeError\<close>, raised before its body runs.
\<close>

definition call_response_generator :: "handler \<Rightarrow> world \<Rightarrow> string \<Rightarrow> string \<Rightarrow> exn + string" where
  "call_response_generator h w ttext ctx =
     (case response_generator h of
        DefaultResponse \<Rightarrow>
          if ''additionalContext'' \<in> set default_response_params
          then Inr (default_response ttext) else Inl TypeError
      | Generator g \<Rightarrow> g w ttext ctx)"

definition fetched_context_note :: "string \<Rightarrow> string" where
  "fetched_context_note fetchedContext =
     nl @ sp 12 @
     ''Below is some fetched context, it includes some inner thoughts / context from the internet / etc. '' @
     nl @ ''<fetchedContext>'' @ [CHR 0x22] @ '' + '' @ fetchedContext @ '' + '' @ [CHR 0x22] @
     ''</fetchedContext>'' @ [CHR 0x22] @ nl @ sp 12 @
     ''If relevant, you can use this context to inform your response.'' @ nl @ sp 12"

definition generate_response :: "handler \<Rightarrow> world \<Rightarrow> string \<Rightarrow> string \<Rightarrow> exn + string" where
  "generate_response h w ttext additionalContext =
     (case fetchContext h of
        None \<Rightarrow> call_response_generator h w ttext additionalContext
      | Some f \<Rightarrow>
          (case f w ttext of
             Inl e \<Rightarrow> Inl e
           | Inr fetchedContext \<Rightarrow>
               call_response_generator h w ttext
                 (additionalContext @ fetched_context_note fetchedContext)))"

subsection \<open>\<open>check_mentions\<close>\<close>

text \<open>\<open>(self.last_checked_tweet_id or 0)\<close>.\<close>

definition cursor :: "handler \<Rightarrow> int" where
  "cursor h = (case last_checked_tweet_id h of None \<Rightarrow> 0 | Some n \<Rightarrow> n)"

text \<open>
  The list comprehension: \<open>int(tweet['id'])\<close> is evaluated for every tweet of the search
  response in turn, and the first one that raises ends the comprehension.
\<close>

fun newer_tweets :: "handler \<Rightarrow> tweet list \<Rightarrow> exn + tweet list" where
  "newer_tweets h [] = Inr []"
| "newer_tweets h (t # ts) =
     (case py_int (tid t) of
        Inl e \<Rightarrow> Inl e
      | Inr n \<Rightarrow>
          (case newer_tweets h ts of
             Inl e \<Rightarrow> Inl e
           | Inr r \<Rightarrow> Inr (if n > cursor h then t # r else r)))"

text \<open>
  The sort key \<open>int(x['id'])\<close>. \<open>sorted\<close> applies it to the tweets the comprehension kept,
  for which the conversion has already succeeded. \<open>sorted\<close> is stable, as \<open>sort_key\<close> is.
\<close>

definition id_key :: "tweet \<Rightarrow> int" where
  "id_key t = (case py_int (tid t) of Inl e \<Rightarrow> 0 | Inr n \<Rightarrow> n)"

definition parse_created_at :: "externals \<Rightarrow> tweet \<Rightarrow> exn + int" where
  "parse_created_at x t = (case created_at t of None \<Rightarrow> Inl TypeError | Some s \<Rightarrow> strptime x s)"

definition interaction_text :: "string option \<Rightarrow> string option \<Rightarrow> string \<Rightarrow> string" where
  "interaction_text user content reply_text =
     nl @ sp 16 @ ''You had the following interaction with '' @ py_str user @ '' '' @
     nl @ sp 16 @ py_str user @ '' tweeted : '' @ py_str content @
     nl @ nl @ sp 16 @ ''You responded with : '' @ reply_text @
     nl @ sp 16"

text \<open>
  The body of the loop from the line \<open>Processing tweet ...\<close> to \<open>log_response\<close>, for a
  candidate that passed the three \<open>continue\<close> tests.
\<close>

definition process_tweet ::
  "handler \<Rightarrow> externals \<Rightarrow> string \<Rightarrow> string \<Rightarrow> tweet \<Rightarrow> world \<Rightarrow> unit result" where
  "process_tweet h x additionalContext searchContext t w =
     (let w1 = w\<lparr>processing := processing w @ [tid t]\<rparr>;
          tweetContent = tweet_text t in
      case getTweetResponsePrompt x tweetContent (username t) searchContext of
        Inl e \<Rightarrow> (Inl e, w1)
      | Inr tweetPrompt \<Rightarrow>
          (case (case getUserContext h of
                   None \<Rightarrow> Inr additionalContext
                 | Some f \<Rightarrow>
                     (case f w1 (username t) of
                        Inl e \<Rightarrow> Inl e
                      | Inr userContext \<Rightarrow> Inr (additionalContext @ userContext))) of
             Inl e \<Rightarrow> (Inl e, w1)
           | Inr respondContext \<Rightarrow>
               (case generate_response h w1 tweetPrompt respondContext of
                  Inl e \<Rightarrow> (Inl e, w1)
                | Inr reply_text \<Rightarrow>
                    (case send_tweet (client h) w1 reply_text (tid t) of
                       (Inl e, w2) \<Rightarrow> (Inl e, w2)
                     | (Inr response, w2) \<Rightarrow>
                         (case (case updateUserContext h of
                                  None \<Rightarrow> None
                                | Some f \<Rightarrow>
                                    f w2 (username t)
                                      (interaction_text (username t) tweetContent reply_text)
                                      additionalContext) of
                            Some e \<Rightarrow> (Inl e, w2)
                          | None \<Rightarrow>
                              log_response h x w2 (tid t) ''PLACEHOLDER'' tweetContent
                                reply_text)))))"

text \<open>
  The \<open>for\<close> loop. \<open>nResponses\<close> is incremented once a response text exists; the test
  \<open>nResponses >= maxReplies\<close> is the last statement of the body, so it is reached only by
  a candidate whose processing completed.
\<close>

fun tweets_loop ::
  "handler \<Rightarrow> externals \<Rightarrow> string \<Rightarrow> string \<Rightarrow> int \<Rightarrow> int \<Rightarrow> tweet list \<Rightarrow> world \<Rightarrow> unit result" where
  "tweets_loop h x additionalContext searchContext maxReplies nResponses [] w = (Inr (), w)"
| "tweets_loop h x additionalContext searchContext maxReplies nResponses (t # ts) w =
     (case parse_created_at x t of
        Inl e \<Rightarrow> (Inl e, w)
      | Inr tweet_created_at \<Rightarrow>
          if tweet_created_at < start_time h
          then tweets_loop h x additionalContext searchContext maxReplies nResponses ts w
          else if username t = client_username (client h)
          then tweets_loop h x additionalContext searchContext maxReplies nResponses ts w
          else
            (case has_responded_to_tweet h w (tid t) of
               Inl e \<Rightarrow> (Inl e, w)
             | Inr True \<Rightarrow>
                 tweets_loop h x additionalContext searchContext maxReplies nResponses ts w
             | Inr False \<Rightarrow>
                 (case process_tweet h x additionalContext searchContext t w of
                    (Inl e, w') \<Rightarrow> (Inl e, w')
                  | (Inr u, w') \<Rightarrow>
                      if nResponses + 1 \<ge> maxReplies then (Inr (), w')
                      else tweets_loop h x additionalContext searchContext maxReplies
                             (nResponses + 1) ts w')))"

text \<open>The statements inside the \<open>try\<close> of \<open>check_mentions\<close>.\<close>

definition check_mentions_try ::
  "handler \<Rightarrow> externals \<Rightarrow> world \<Rightarrow> string \<Rightarrow> string \<Rightarrow> string \<Rightarrow> int \<Rightarrow> unit result" where
  "check_mentions_try h x w searchTerm additionalContext searchContext maxReplies =
     (case search_tweets_result (client h) w searchTerm of
        Inl e \<Rightarrow> (Inl e, w)
      | Inr search_response \<Rightarrow>
          if search_response = [] then (Inr (), w)
          else
            (case newer_tweets h search_response of
               Inl e \<Rightarrow> (Inl e, w)
             | Inr tweets \<Rightarrow>
                 tweets_loop h x additionalContext searchContext maxReplies 0
                   (sort_key id_key tweets) w))"

text \<open>\<open>check_mentions\<close>: \<open>except Exception\<close> prints the error and the method returns.\<close>

definition check_mentions ::
  "handler \<Rightarrow> externals \<Rightarrow> world \<Rightarrow> string \<Rightarrow> string \<Rightarrow> string \<Rightarrow> int \<Rightarrow> unit result" where
  "check_mentions h x w searchTerm additionalContext searchContext maxReplies =
     (case check_mentions_try h x w searchTerm additionalContext searchContext maxReplies of
        (Inl e, w') \<Rightarrow> (Inr (), w')
      | (Inr u, w') \<Rightarrow> (Inr (), w'))"

subsection \<open>The drivers\<close>



text \<open>
  \<open>random.choice(seq)\<close> on a non-empty sequence: the element at the drawn index, which is
  below the length.
\<close>

definition random_choice :: "externals \<Rightarrow> world \<Rightarrow> 'a list \<Rightarrow> exn + 'a" where
  "random_choice x w xs =
     (if xs = [] then Inl IndexError
      else Inr (xs ! (random_index x w (length xs) mod length xs)))"




subsection \<open>\<open>tweet_to_followers\<close>\<close>

definition follower_prompt :: "follower \<Rightarrow> string" where
  "follower_prompt f =
     nl @ sp 8 @ ''Tweet to your follower - '' @ py_str (follower_username f) @
     '' make sure to include their handle i.e. @'' @ py_str (follower_username f) @
     '' in the tweet. '' @
     nl @ sp 8 @ ''Profile of '' @ py_str (follower_username f) @ '' : '' @
     py_str (description f) @
     nl @ nl @ sp 8 @ ''When tweeting consider the below tweet style instructions '' @
     nl @ ''<tweetStyle>'' @
     nl @ sp 4 @ ''never use hashtags or emojis'' @
     nl @ sp 4 @ ''response should be short, punchy, and to the point'' @
     nl @ sp 4 @ ''don'' @ [CHR 0x27] @ ''t say ah yes or oh or anything'' @
     nl @ sp 4 @ ''don'' @ [CHR 0x27] @ ''t ask rhetorical questions, its lame'' @
     nl @ sp 4 @ ''occassionally you'' @ [CHR 0x27] @
     ''ll ask provocative / controversial questions'' @
     nl @ sp 4 @ ''use lowercase most of the time'' @
     nl @ sp 4 @ ''you like to go deep down the rabbithole....'' @
     nl @ ''</tweetStyle>'' @
     nl @ nl @ sp 8 @
     ''Base the tweet on your current thought process & stay true to your identity.'' @
     nl @ sp 8 @
     ''If there is something relevant in their profile mention that otherwise mention something aligned with your current thougts / persona. '' @
     nl @ sp 8 @ ''The tweet can either be a question or a statement '' @
     nl @ nl @ sp 8"

definition follower_interaction :: "follower \<Rightarrow> string \<Rightarrow> string" where
  "follower_interaction f ttext =
     nl @ sp 12 @ ''You tweeted to '' @ py_str (follower_username f) @ '' : '' @ ttext @
     nl @ sp 12 @ ''Profile of '' @ py_str (follower_username f) @ '' : '' @
     py_str (description f) @
     nl @ sp 12 @ ''They follow you'' @
     nl @ sp 12"

text \<open>
  \<open>tweet_to_followers\<close> has no \<open>try\<close>. Its first statement calls
  \<open>self.client.get_followers\<close>: without that attribute on the client the lookup raises
  \<open>AttributeError\<close>.
\<close>

definition tweet_to_followers :: "handler \<Rightarrow> externals \<Rightarrow> world \<Rightarrow> int \<Rightarrow> string \<Rightarrow> unit result" where
  "tweet_to_followers h x w check_interval additionalContext =
     (case get_followers (client h) of
        None \<Rightarrow> (Inl AttributeError, w)
      | Some fetch \<Rightarrow>
          (case fetch w (client_username (client h)) of
             Inl e \<Rightarrow> (Inl e, w)
           | Inr followers \<Rightarrow>
               (case random_choice x w followers of
                  Inl e \<Rightarrow> (Inl e, w)
                | Inr f \<Rightarrow>
                    (case (case getUserContext h of
                             None \<Rightarrow> Inr additionalContext
                           | Some g \<Rightarrow>
                               (case g w (follower_username f) of
                                  Inl e \<Rightarrow> Inl e
                                | Inr follower_context \<Rightarrow>
                                    Inr (additionalContext @ follower_context))) of
                       Inl e \<Rightarrow> (Inl e, w)
                     | Inr ctx \<Rightarrow>
                         (case generate_response h w (follower_prompt f) ctx of
                            Inl e \<Rightarrow> (Inl e, w)
                          | Inr ttext \<Rightarrow>
                              (case send_tweet (client h) w ttext None of
                                 (Inl e, w') \<Rightarrow> (Inl e, w')
                               | (Inr response, w') \<Rightarrow>
                                   (case updateUserContext h of
                                      None \<Rightarrow> (Inr (), w')
                                    | Some u \<Rightarrow>
                                        (case u w' (follower_username f)
                                                (follower_interaction f ttext) ctx of
                                           Some e \<Rightarrow> (Inl e, w')
                                         | None \<Rightarrow> (Inr (), w')))))))))"

section \<open>The vocabulary of the properties\<close>

text \<open>
  The four tests a candidate has to pass, in the words of the specification: its
  identifier is strictly greater than the cursor, its timestamp is not before
  \<open>start_time\<close>, its author is not the engine's own account, and the dedup predicate
  reports no record for it in the given world.
\<close>

definition newer :: "handler \<Rightarrow> tweet \<Rightarrow> bool" where
  "newer h t = (case py_int (tid t) of Inl e \<Rightarrow> False | Inr n \<Rightarrow> cursor h < n)"

definition in_window :: "handler \<Rightarrow> externals \<Rightarrow> tweet \<Rightarrow> bool" where
  "in_window h x t =
     (case parse_created_at x t of Inl e \<Rightarrow> False | Inr c \<Rightarrow> \<not> c < start_time h)"

definition not_own :: "handler \<Rightarrow> tweet \<Rightarrow> bool" where
  "not_own h t = (username t \<noteq> client_username (client h))"

definition unanswered :: "handler \<Rightarrow> world \<Rightarrow> tweet \<Rightarrow> bool" where
  "unanswered h w t = (has_responded_to_tweet h w (tid t) = Inr False)"

definition eligible :: "handler \<Rightarrow> externals \<Rightarrow> world \<Rightarrow> tweet \<Rightarrow> bool" where
  "eligible h x w t = (newer h t \<and> in_window h x t \<and> not_own h t \<and> unanswered h w t)"

text \<open>The three tests of the loop body, which come after the cursor test.\<close>

definition passes :: "handler \<Rightarrow> externals \<Rightarrow> world \<Rightarrow> tweet \<Rightarrow> bool" where
  "passes h x w t = (in_window h x t \<and> not_own h t \<and> unanswered h w t)"

text \<open>The eligible candidates of a search result, in ascending order of identifier.\<close>

definition candidates :: "handler \<Rightarrow> externals \<Rightarrow> world \<Rightarrow> tweet list \<Rightarrow> tweet list" where
  "candidates h x w found = sort_key id_key (filter (eligible h x w) found)"

text \<open>The ids of the stored records, and the ids the posted tweets reply to.\<close>

definition recorded :: "world \<Rightarrow> string option list" where
  "recorded w = map fst (store w)"

definition replied :: "world \<Rightarrow> string option list" where
  "replied w = map snd (posted w)"

text \<open>
  No collaborator call raises: the vector store is there and its calls return, the prompt
  builder, the context callbacks and the response generator return, the cookie lookup
  returns, and the platform answers every post with status 200 and a JSON body.
\<close>

definition calls_succeed :: "handler \<Rightarrow> externals \<Rightarrow> bool" where
  "calls_succeed h x =
     ((case chroma_client h of
         None \<Rightarrow> False
       | Some c \<Rightarrow>
           get_or_create_collection_raises c = None \<and> (\<forall>k. get_raises c k = None)
           \<and> (\<forall>k. add_raises c k = None))
      \<and> (\<forall>content author sc. \<exists>p. getTweetResponsePrompt x content author sc = Inr p)
      \<and> (case getUserContext h of None \<Rightarrow> True | Some f \<Rightarrow> \<forall>w u. \<exists>r. f w u = Inr r)
      \<and> (\<forall>w p ctx. \<exists>r. generate_response h w p ctx = Inr r)
      \<and> (\<forall>w. \<exists>tok. csrf_token (client_session (client h)) w = Inr tok)
      \<and> (\<forall>w txt reply. \<exists>resp j.
            http_post (client_session (client h)) w txt reply = Inr resp
            \<and> status_code resp = 200 \<and> json_body resp = Inr j)
      \<and> (case updateUserContext h of None \<Rightarrow> True | Some f \<Rightarrow> \<forall>w u i a. f w u i a = None))"

text \<open>Every tweet of a search result has an id and a timestamp that parse.\<close>

definition well_formed :: "externals \<Rightarrow> tweet list \<Rightarrow> bool" where
  "well_formed x found =
     (\<forall>t\<in>set found. (\<exists>n. py_int (tid t) = Inr n) \<and> (\<exists>c. parse_created_at x t = Inr c))"

section \<open>A concrete run\<close>

text \<open>
  The handler is constructed on 4 November 2026 at 12:00:00 UTC. The search returns three
  tweets with the ids 5, 3 and 7: tweet 5 was created one hour before the construction,
  tweets 3 and 7 half an hour after it. A fourth tweet, 9, is two days old.
\<close>

definition ex_now :: int where
  "ex_now = 1793793600000000"

definition ex_strptime :: "string \<Rightarrow> exn + int" where
  "ex_strptime s =
     (if s = ''Wed Nov 04 11:00:00 +0000 2026'' then Inr 1793790000000000
      else if s = ''Wed Nov 04 12:30:00 +0000 2026'' then Inr 1793795400000000
      else if s = ''Mon Nov 02 10:00:00 +0000 2026'' then Inr 1793613600000000
      else Inl ValueError)"

definition ex_tweet :: "string \<Rightarrow> string \<Rightarrow> string \<Rightarrow> tweet" where
  "ex_tweet i author date =
     \<lparr>tid = Some i, tweet_text = Some ''gm @rice_bot'', username = Some author,
      created_at = Some date\<rparr>"

definition t5 :: tweet where
  "t5 = ex_tweet ''5'' ''alice'' ''Wed Nov 04 11:00:00 +0000 2026''"

definition t3 :: tweet where
  "t3 = ex_tweet ''3'' ''bob'' ''Wed Nov 04 12:30:00 +0000 2026''"

definition t7 :: tweet where
  "t7 = ex_tweet ''7'' ''carol'' ''Wed Nov 04 12:30:00 +0000 2026''"

definition t9 :: tweet where
  "t9 = ex_tweet ''9'' ''dave'' ''Mon Nov 02 10:00:00 +0000 2026''"

definition ok_response :: http_response where
  "ok_response = \<lparr>status_code = 200, resp_text = ''{}'', json_body = Inr (JObj [])\<rparr>"

definition ex_session :: session where
  "ex_session =
     \<lparr>csrf_token = (\<lambda>w. Inr (Some ''c0ffee'')),
      http_get = (\<lambda>w q n. Inr ok_response),
      http_post = (\<lambda>w txt reply. Inr ok_response)\<rparr>"

definition ex_client :: "tweet list \<Rightarrow> client" where
  "ex_client found =
     TwitterClient (Some ''rice_bot'') ex_session (\<lambda>w q. Inr found) (\<lambda>w u. Inr [])"

definition ex_chroma :: chroma where
  "ex_chroma =
     \<lparr>get_or_create_collection_raises = None, get_raises = (\<lambda>k. None),
      add_raises = (\<lambda>k. None)\<rparr>"

definition ex_generator :: "world \<Rightarrow> string \<Rightarrow> string \<Rightarrow> exn + string" where
  "ex_generator w prompt ctx = Inr ''gm''"

definition ex_externals :: externals where
  "ex_externals =
     \<lparr>strptime = ex_strptime,
      getTweetResponsePrompt = (\<lambda>content author searchContext. Inr (py_str content)),
      isoformat_now = (\<lambda>w. ''2026-11-04T12:00:01''),
      random_index = (\<lambda>w n. 0)\<rparr>"

text \<open>
  Construction with the cursor file holding 3, the given tweets as search result, and the
  given response generator, vector-store client and \<open>updateUserContext\<close>.
\<close>

definition ex_init ::
  "tweet list \<Rightarrow> (world \<Rightarrow> string \<Rightarrow> string \<Rightarrow> exn + string) option \<Rightarrow> chroma option \<Rightarrow>
   (world \<Rightarrow> string option \<Rightarrow> string \<Rightarrow> string \<Rightarrow> exn option) option \<Rightarrow> exn + handler" where
  "ex_init found rg chroma uuc =
     init (ex_client found) rg chroma [''@rice_bot''] [] None None uuc (Inr (Some 3)) ex_now"

definition ex_handler ::
  "tweet list \<Rightarrow> (world \<Rightarrow> string \<Rightarrow> string \<Rightarrow> exn + string) option \<Rightarrow> chroma option \<Rightarrow>
   (world \<Rightarrow> string option \<Rightarrow> string \<Rightarrow> string \<Rightarrow> exn option) option \<Rightarrow> handler" where
  "ex_handler found rg chroma uuc = projr (ex_init found rg chroma uuc)"

definition w0 :: world where
  "w0 = \<lparr>store = [], posted = [], processing = []\<rparr>"

text \<open>Variants: a vector store whose lookup raises, a cookie jar with two matching
  cookies, a search request that times out, an \<open>updateUserContext\<close> that raises.\<close>

definition ex_chroma_failing :: "exn \<Rightarrow> chroma" where
  "ex_chroma_failing e = ex_chroma\<lparr>get_raises := (\<lambda>k. Some e)\<rparr>"

definition ex_session_conflict :: session where
  "ex_session_conflict =
     ex_session\<lparr>csrf_token := (\<lambda>w. Inl (OtherException ''CookieConflictError''))\<rparr>"

definition ex_session_timeout :: session where
  "ex_session_timeout =
     ex_session\<lparr>http_get := (\<lambda>w q n. Inl (OtherException ''ConnectTimeout''))\<rparr>"

definition ex_update_raises :: "world \<Rightarrow> string option \<Rightarrow> string \<Rightarrow> string \<Rightarrow> exn option" where
  "ex_update_raises w user interaction ctx = Some (OtherException ''context store down'')"

text \<open>The search result and the handlers of the run.\<close>

definition ex_found :: "tweet list" where
  "ex_found = [t5, t3, t7]"

definition ex_h :: handler where
  "ex_h = ex_handler ex_found (Some ex_generator) (Some ex_chroma) None"

definition ex_h_update_raises :: handler where
  "ex_h_update_raises =
     ex_handler ex_found (Some ex_generator) (Some ex_chroma) (Some ex_update_raises)"

section \<open>Properties of the platform client\<close>

text \<open>
  C7, as stated (\<open>search_tweets\<close> never raises), fails: the header update runs before the
  \<open>try\<close>, and a cookie jar holding two cookies named \<open>ct0\<close> for the domain makes the
  lookup raise, whatever the HTTP interaction would have been.
\<close>

theorem search_tweets_raises_on_cookie_conflict:
  "search_tweets ex_session_conflict w0 ''@rice_bot'' 20
     = Inl (OtherException ''CookieConflictError'')"
  by code_simp

text \<open>
  C7, amended: once the header update has returned, \<open>search_tweets\<close> returns a list for
  every query and every outcome of the HTTP interaction, and the list is empty whenever the
  \<open>try\<close> fails: on a raised error of the request, on a status other than 200, on a body
  that does not decode, and on a decoded body that is not an object.
\<close>

theorem search_tweets_never_raises_after_csrf:
  assumes "update_headers_with_csrf sess w = Inr ()"
  shows "(\<exists>tweets. search_tweets sess w q m = Inr tweets)
    \<and> ((\<exists>e. search_tweets_try sess w q m = Inl e) \<longrightarrow> search_tweets sess w q m = Inr [])
    \<and> ((\<exists>e. http_get sess w q (min m 40) = Inl e) \<longrightarrow> search_tweets sess w q m = Inr [])
    \<and> (\<forall>r. http_get sess w q (min m 40) = Inr r \<and> status_code r \<noteq> 200
          \<longrightarrow> search_tweets sess w q m = Inr [])
    \<and> (\<forall>r e. http_get sess w q (min m 40) = Inr r \<and> json_body r = Inl e
          \<longrightarrow> search_tweets sess w q m = Inr [])
    \<and> (\<forall>r d. http_get sess w q (min m 40) = Inr r \<and> json_body r = Inr d
            \<and> (\<forall>kvs. d \<noteq> JObj kvs)
          \<longrightarrow> search_tweets sess w q m = Inr [])"
proof -
  have not_a_dict: "json_get d k v = Inl AttributeError" if "\<forall>kvs. d \<noteq> JObj kvs" for d k v
    using that by (cases d) auto
  show ?thesis
    using assms
    by (auto simp: search_tweets_def search_tweets_try_def ebind_def not_a_dict
          split: sum.splits)
qed

theorem search_tweets_never_raises_after_csrf_witness:
  "update_headers_with_csrf ex_session_timeout w0 = Inr ()
   \<and> http_get ex_session_timeout w0 ''@rice_bot'' (min 20 40)
       = Inl (OtherException ''ConnectTimeout'')
   \<and> search_tweets ex_session_timeout w0 ''@rice_bot'' 20 = Inr []"
proof -
  have h: "update_headers_with_csrf ex_session_timeout w0 = Inr ()"
    by code_simp
  have g: "http_get ex_session_timeout w0 ''@rice_bot'' (min 20 40)
             = Inl (OtherException ''ConnectTimeout'')"
    by code_simp
  show ?thesis
    using h g search_tweets_never_raises_after_csrf [OF h, of "''@rice_bot''" 20] by blast
qed

text \<open>
  C8: class \<open>TwitterClient\<close> defines no \<open>get_followers\<close>. On a handler whose client is an
  instance of it, \<open>tweet_to_followers\<close> raises \<open>AttributeError\<close> at its first statement,
  whatever the arguments, and nothing is fetched or posted.
\<close>

theorem tweet_to_followers_raises_attribute_error:
  "tweet_to_followers (h\<lparr>client := TwitterClient name sess search followers\<rparr>) x w ci ac
     = (Inl AttributeError, w)"
  by (simp add: tweet_to_followers_def TwitterClient_def TwitterClient_attributes_def)

section \<open>Properties of the dedup predicate and of the response generator\<close>

text \<open>
  C5, as stated (a lookup that raises makes the predicate return false), fails: a lookup
  that raises a connection error makes \<open>has_responded_to_tweet\<close> raise it too.
\<close>

theorem has_responded_propagates_other_errors:
  "has_responded_try
     (ex_handler [t5] (Some ex_generator)
        (Some (ex_chroma_failing (OtherException ''connection refused''))) None)
     w0 (Some ''5'') = Inl (OtherException ''connection refused'')
   \<and> has_responded_to_tweet
     (ex_handler [t5] (Some ex_generator)
        (Some (ex_chroma_failing (OtherException ''connection refused''))) None)
     w0 (Some ''5'') \<noteq> Inr False"
  by code_simp

text \<open>
  C5, amended: when the lookup raises \<open>FileNotFoundError\<close> or \<open>JSONDecodeError\<close>, the
  predicate returns false; any other exception of the lookup propagates.
\<close>

theorem has_responded_fails_open_on_two_errors:
  "has_responded_try h w i = Inl e \<Longrightarrow>
   has_responded_to_tweet h w i =
     (if e = FileNotFoundError \<or> e = JSONDecodeError then Inr False else Inl e)"
  by (simp add: has_responded_to_tweet_def)

theorem has_responded_fails_open_on_two_errors_witness:
  "has_responded_try
     (ex_handler [t5] (Some ex_generator) (Some (ex_chroma_failing FileNotFoundError)) None)
     w0 (Some ''5'') = Inl FileNotFoundError
   \<and> has_responded_to_tweet
     (ex_handler [t5] (Some ex_generator) (Some (ex_chroma_failing FileNotFoundError)) None)
     w0 (Some ''5'') = Inr False"
proof -
  have h: "has_responded_try
     (ex_handler [t5] (Some ex_generator) (Some (ex_chroma_failing FileNotFoundError)) None)
     w0 (Some ''5'') = Inl FileNotFoundError"
    by code_simp
  show ?thesis
    using h has_responded_fails_open_on_two_errors [OF h] by simp
qed

text \<open>
  C9: a handler constructed without a response generator calls \<open>default_response\<close> with
  the keyword \<open>additionalContext\<close>, which it does not declare: the call is a
  \<open>TypeError\<close>, and \<open>generate_response\<close> raises on every input (the \<open>TypeError\<close>, or the
  exception of \<open>fetchContext\<close> before it).
\<close>

theorem generate_response_raises_without_generator:
  "init c None chroma terms targets guc fc uuc file now = Inr h \<Longrightarrow>
   (\<exists>e. generate_response h w prompt ctx = Inl e)
   \<and> call_response_generator h w prompt ctx = Inl TypeError"
  by (auto simp: init_def generate_response_def call_response_generator_def
        default_response_params_def split: sum.splits option.splits)

theorem generate_response_raises_without_generator_witness:
  "ex_init [t5] None (Some ex_chroma) None = Inr (ex_handler [t5] None (Some ex_chroma) None)
   \<and> generate_response (ex_handler [t5] None (Some ex_chroma) None) w0 ''gm @rice_bot'' []
       = Inl TypeError"
proof -
  have h: "init (ex_client [t5]) None (Some ex_chroma) [''@rice_bot''] [] None None None
             (Inr (Some 3)) ex_now = Inr (ex_handler [t5] None (Some ex_chroma) None)"
    by (simp add: ex_handler_def ex_init_def init_def load_last_checked_tweet_id_def)
  have g: "generate_response (ex_handler [t5] None (Some ex_chroma) None) w0
             ''gm @rice_bot'' [] = Inl TypeError"
    by code_simp
  show ?thesis
    using h g generate_response_raises_without_generator [OF h] by (simp add: ex_init_def)
qed

section \<open>Properties of the mention-checking cycle\<close>

lemma newer_tweets_filter:
  "newer_tweets h ts = Inr r \<Longrightarrow>
   r = filter (newer h) ts \<and> (\<forall>t\<in>set ts. \<exists>n. py_int (tid t) = Inr n)"
  by (induction ts arbitrary: r) (auto simp: newer_def split: sum.splits if_splits)

lemma loop_no_chroma:
  "chroma_client h = None \<Longrightarrow> tweets_loop h x ac sc m n ts w = (r, w') \<Longrightarrow> w' = w"
  by (induction ts arbitrary: n)
     (auto simp: has_responded_to_tweet_def has_responded_try_def split: sum.splits if_splits)

lemma loop_no_chroma_abort:
  "chroma_client h = None \<Longrightarrow> t \<in> set ts \<Longrightarrow> parse_created_at x t = Inr c \<Longrightarrow>
   \<not> c < start_time h \<Longrightarrow> username t \<noteq> client_username (client h) \<Longrightarrow>
   \<exists>e. fst (tweets_loop h x ac sc m n ts w) = Inl e"
  by (induction ts arbitrary: n)
     (auto simp: has_responded_to_tweet_def has_responded_try_def split: sum.splits if_splits)

subsection \<open>One candidate\<close>

lemma py_int_truthy: "py_int v = Inr n \<Longrightarrow> py_truthy v"
  by (cases v) (auto simp: py_int_def py_truthy_def py_int_str_def py_strip_def)

lemma send_tweet_shape:
  assumes "send_tweet c w txt rid = (r, w1)"
  shows "processing w1 = processing w \<and> store w1 = store w
    \<and> (posted w1 = posted w \<and> (\<exists>e. r = Inl e)
       \<or> posted w1 = posted w @ [(txt, if py_truthy rid then rid else None)])"
  using assms
  by (auto simp: send_tweet_def Let_def split: sum.splits if_splits)

lemma log_response_shape:
  assumes "log_response h x w i p c t = (r, w1)"
  shows "processing w1 = processing w \<and> posted w1 = posted w
    \<and> (store w1 = store w \<or> (\<exists>d e. store w1 = store w @ [(i, d, e)]))
    \<and> (r = Inr () \<longrightarrow> chroma_client h \<noteq> None \<longrightarrow> i \<in> set (map fst (store w1)))"
  using assms
  by (auto simp: log_response_def collection_add_def Let_def split: option.splits if_splits)

lemma process_tweet_shape:
  assumes "process_tweet h x ac sc t w = (r, w1)"
  shows "processing w1 = processing w @ [tid t]
    \<and> (\<exists>Q S. posted w1 = posted w @ Q \<and> store w1 = store w @ S
         \<and> (Q = [] \<or> (\<exists>txt. Q = [(txt, if py_truthy (tid t) then tid t else None)]))
         \<and> (S = [] \<or> (Q \<noteq> [] \<and> (\<exists>d e. S = [(tid t, d, e)])))
         \<and> (Q = [] \<longrightarrow> (\<exists>e. r = Inl e))
         \<and> (r = Inr () \<longrightarrow> chroma_client h \<noteq> None \<longrightarrow> tid t \<in> set (map fst (store w1))))"
proof -
  let ?w1 = "w\<lparr>processing := processing w @ [tid t]\<rparr>"
  show ?thesis
  proof (cases "getTweetResponsePrompt x (tweet_text t) (username t) sc")
    case (Inl e)
    then show ?thesis using assms by (auto simp: process_tweet_def Let_def)
  next
    case p: (Inr tweetPrompt)
    show ?thesis
    proof (cases "case getUserContext h of None \<Rightarrow> Inr ac
                  | Some f \<Rightarrow> (case f ?w1 (username t) of Inl e \<Rightarrow> Inl e
                               | Inr userContext \<Rightarrow> Inr (ac @ userContext))")
      case (Inl e)
      then show ?thesis using assms p by (auto simp: process_tweet_def Let_def)
    next
      case c: (Inr respondContext)
      show ?thesis
      proof (cases "generate_response h ?w1 tweetPrompt respondContext")
        case (Inl e)
        then show ?thesis using assms p c by (auto simp: process_tweet_def Let_def)
      next
        case g: (Inr reply_text)
        obtain r2 w2 where s: "send_tweet (client h) ?w1 reply_text (tid t) = (r2, w2)"
          by (cases "send_tweet (client h) ?w1 reply_text (tid t)")
        note sh = send_tweet_shape [OF s]
        show ?thesis
        proof (cases r2)
          case (Inl e)
          then have "r = Inl e" "w1 = w2"
            using assms p c g s by (auto simp: process_tweet_def Let_def)
          then show ?thesis using sh Inl by auto
        next
          case r2: (Inr response)
          then have po: "posted w2 = posted w @ [(reply_text, if py_truthy (tid t) then tid t else None)]"
            using sh by auto
          show ?thesis
          proof (cases "case updateUserContext h of None \<Rightarrow> None
                  | Some f \<Rightarrow> f w2 (username t)
                      (interaction_text (username t) (tweet_text t) reply_text) ac")
            case (Some e)
            then have "r = Inl e" "w1 = w2"
              using assms p c g s r2 by (auto simp: process_tweet_def Let_def)
            then show ?thesis using sh po by auto
          next
            case None
            then have l: "log_response h x w2 (tid t) ''PLACEHOLDER'' (tweet_text t) reply_text = (r, w1)"
              using assms p c g s r2 by (auto simp: process_tweet_def Let_def)
            note lh = log_response_shape [OF l]
            show ?thesis using sh po lh by auto
          qed
        qed
      qed
    qed
  qed
qed



lemma has_responded_frame:
  assumes "process_tweet h x ac sc t w = (r, w1)" and "k \<noteq> tid t"
  shows "has_responded_to_tweet h w1 k = has_responded_to_tweet h w k"
proof -
  obtain S where "store w1 = store w @ S" and "S = [] \<or> (\<exists>d e. S = [(tid t, d, e)])"
    using process_tweet_shape [OF assms(1)] by blast
  then have "collection_get w1 k = collection_get w k"
    using assms(2) by (auto simp: collection_get_def)
  then show ?thesis
    by (simp add: has_responded_to_tweet_def has_responded_try_def cong: option.case_cong)
qed

lemma passes_frame:
  assumes "process_tweet h x ac sc t w = (r, w1)" and "tid t \<notin> tid ` set ts"
  shows "filter (passes h x w1) ts = filter (passes h x w) ts"
proof (rule filter_cong [OF refl])
  fix s assume "s \<in> set ts"
  then have "tid s \<noteq> tid t" using assms(2) by (metis imageI)
  then show "passes h x w1 s = passes h x w s"
    using has_responded_frame [OF assms(1)] by (simp add: passes_def unanswered_def)
qed

lemma loop_processing:
  "distinct (map tid ts) \<Longrightarrow> tweets_loop h x ac sc m n ts w = (r, w') \<Longrightarrow>
   (\<exists>k \<le> nat (max 1 (m - n)).
      processing w' = processing w @ map tid (take k (filter (passes h x w) ts)))
   \<and> (r = Inr () \<longrightarrow>
        processing w' =
          processing w @ map tid (take (nat (max 1 (m - n))) (filter (passes h x w) ts)))"
proof (induction ts arbitrary: n w)
  case Nil
  then show ?case by auto
next
  case (Cons t ts)
  have d: "distinct (map tid ts)" and fresh: "tid t \<notin> tid ` set ts"
    using Cons.prems(1) by auto
  note run = Cons.prems(2)
  show ?case
  proof (cases "parse_created_at x t")
    case (Inl e)
    then have "w' = w" "r = Inl e" using run by auto
    then show ?thesis by (intro conjI exI [of _ 0]) auto
  next
    case c: (Inr c)
    show ?thesis
    proof (cases "c < start_time h \<or> username t = client_username (client h)")
      case True
      then have skip: "\<not> passes h x w t"
        using c by (auto simp: passes_def in_window_def not_own_def)
      have "tweets_loop h x ac sc m n ts w = (r, w')"
        using run c True by (auto split: if_splits)
      from Cons.IH [OF d this] show ?thesis using skip by simp
    next
      case False
      then have win: "in_window h x t" "not_own h t"
        using c by (auto simp: in_window_def not_own_def)
      show ?thesis
      proof (cases "has_responded_to_tweet h w (tid t)")
        case (Inl e)
        then have "w' = w" "r = Inl e" using run c False by auto
        then show ?thesis by (intro conjI exI [of _ 0]) auto
      next
        case b: (Inr b)
        show ?thesis
        proof (cases b)
          case True
          then have skip: "\<not> passes h x w t"
            using b by (auto simp: passes_def unanswered_def)
          have "tweets_loop h x ac sc m n ts w = (r, w')"
            using run c False b True by auto
          from Cons.IH [OF d this] show ?thesis using skip by simp
        next
          case nb: False
          then have pass: "passes h x w t"
            using b win by (simp add: passes_def unanswered_def)
          obtain r1 w1 where p: "process_tweet h x ac sc t w = (r1, w1)"
            by (cases "process_tweet h x ac sc t w")
          have pr: "processing w1 = processing w @ [tid t]"
            using process_tweet_shape [OF p] by simp
          note fr = passes_frame [OF p fresh]
          show ?thesis
          proof (cases r1)
            case (Inl e)
            then have "w' = w1" "r = Inl e" using run c False b nb p by auto
            then show ?thesis using pr pass by (intro conjI exI [of _ 1]) auto
          next
            case (Inr u)
            show ?thesis
            proof (cases "n + 1 \<ge> m")
              case True
              then have "w' = w1" using run c False b nb p Inr by auto
              moreover have "nat (max 1 (m - n)) = 1" using True by auto
              ultimately show ?thesis using pr pass by (intro conjI exI [of _ 1]) auto
            next
              case more: False
              then have rec: "tweets_loop h x ac sc m (n + 1) ts w1 = (r, w')"
                using run c False b nb p Inr by auto
              define j where "j = nat (max 1 (m - (n + 1)))"
              have K: "nat (max 1 (m - n)) = Suc j"
                using more by (auto simp: j_def)
              from Cons.IH [OF d rec] obtain k where
                k: "k \<le> j"
                   "processing w' = processing w1 @ map tid (take k (filter (passes h x w1) ts))"
                and full: "r = Inr () \<longrightarrow> processing w' = processing w1 @
                     map tid (take j (filter (passes h x w1) ts))"
                unfolding j_def by blast
              have "Suc k \<le> Suc j" using k(1) by simp
              moreover have "processing w' =
                  processing w @ map tid (take (Suc k) (filter (passes h x w) (t # ts)))"
                using k(2) pr pass fr by simp
              moreover have "r = Inr () \<longrightarrow> processing w' = processing w @
                  map tid (take (Suc j) (filter (passes h x w) (t # ts)))"
                using full pr pass fr by simp
              ultimately show ?thesis unfolding K by blast
            qed
          qed
        qed
      qed
    qed
  qed
qed


lemma has_responded_needs_chroma:
  "has_responded_to_tweet h w k = Inr b \<Longrightarrow> chroma_client h \<noteq> None"
  by (auto simp: has_responded_to_tweet_def has_responded_try_def split: option.splits)

lemma loop_shape:
  "\<forall>t\<in>set ts. py_truthy (tid t) \<Longrightarrow> tweets_loop h x ac sc m n ts w = (r, w') \<Longrightarrow>
   \<exists>T Q S. processing w' = processing w @ map tid T
     \<and> set T \<subseteq> {t \<in> set ts. in_window h x t \<and> not_own h t}
     \<and> posted w' = posted w @ Q \<and> store w' = store w @ S
     \<and> (map snd Q = map tid T \<or> map snd Q = butlast (map tid T))
     \<and> set (map fst S) \<subseteq> set (map snd Q)
     \<and> (r = Inr () \<longrightarrow> map snd Q = map tid T \<and> set (map snd Q) \<subseteq> set (map fst (store w')))"
proof (induction ts arbitrary: n w)
  case Nil
  then have "w' = w" "r = Inr ()" by auto
  then show ?case by (intro exI [of _ "[]"]) simp
next
  case (Cons t ts)
  have tr: "\<forall>t\<in>set ts. py_truthy (tid t)" and trt: "py_truthy (tid t)"
    using Cons.prems(1) by auto
  note run = Cons.prems(2)
  have stop: ?case if "w' = w" "r = Inl e" for e
    using that by (intro exI [of _ "[]"]) simp
  have skip: ?case if "tweets_loop h x ac sc m n ts w = (r, w')"
  proof -
    from Cons.IH [OF tr that] obtain T Q S where
      sub: "set T \<subseteq> {t \<in> set ts. in_window h x t \<and> not_own h t}"
      and rest: "processing w' = processing w @ map tid T"
      "posted w' = posted w @ Q" "store w' = store w @ S"
      "map snd Q = map tid T \<or> map snd Q = butlast (map tid T)"
      "set (map fst S) \<subseteq> set (map snd Q)"
      "r = Inr () \<longrightarrow> map snd Q = map tid T \<and> set (map snd Q) \<subseteq> set (map fst (store w'))"
      by blast
    from sub have "set T \<subseteq> {s \<in> set (t # ts). in_window h x s \<and> not_own h s}"
      by auto
    with rest show ?thesis
      by (intro exI [of _ T] exI [of _ Q] exI [of _ S]) blast
  qed
  show ?case
  proof (cases "parse_created_at x t")
    case (Inl e)
    then have "w' = w" "r = Inl e" using run by auto
    then show ?thesis by (rule stop)
  next
    case c: (Inr c)
    show ?thesis
    proof (cases "c < start_time h \<or> username t = client_username (client h)")
      case True
      then have "tweets_loop h x ac sc m n ts w = (r, w')"
        using run c by (auto split: if_splits)
      then show ?thesis by (rule skip)
    next
      case False
      then have win: "in_window h x t" "not_own h t"
        using c by (auto simp: in_window_def not_own_def)
      show ?thesis
      proof (cases "has_responded_to_tweet h w (tid t)")
        case (Inl e)
        then have "w' = w" "r = Inl e" using run c False by auto
        then show ?thesis by (rule stop)
      next
        case b: (Inr b)
        show ?thesis
        proof (cases b)
          case True
          then have "tweets_loop h x ac sc m n ts w = (r, w')"
            using run c False b by auto
          then show ?thesis by (rule skip)
        next
          case nb: False
          have chroma: "chroma_client h \<noteq> None"
            using has_responded_needs_chroma [OF b] .
          obtain r1 w1 where p: "process_tweet h x ac sc t w = (r1, w1)"
            by (cases "process_tweet h x ac sc t w")
          have "processing w1 = processing w @ [tid t]
            \<and> (\<exists>Q S. posted w1 = posted w @ Q \<and> store w1 = store w @ S
                 \<and> (Q = [] \<or> (\<exists>txt. Q = [(txt, tid t)]))
                 \<and> (S = [] \<or> (Q \<noteq> [] \<and> (\<exists>d e. S = [(tid t, d, e)])))
                 \<and> (Q = [] \<longrightarrow> (\<exists>e. r1 = Inl e))
                 \<and> (r1 = Inr () \<longrightarrow> tid t \<in> set (map fst (store w1))))"
            using process_tweet_shape [OF p] trt chroma by simp
          then obtain Q1 S1 where
            pr: "processing w1 = processing w @ [tid t]"
            and po: "posted w1 = posted w @ Q1" and st: "store w1 = store w @ S1"
            and q1: "Q1 = [] \<or> (\<exists>txt. Q1 = [(txt, tid t)])"
            and s1: "S1 = [] \<or> (Q1 \<noteq> [] \<and> (\<exists>d e. S1 = [(tid t, d, e)]))"
            and e1: "Q1 = [] \<longrightarrow> (\<exists>e. r1 = Inl e)"
            and k1: "r1 = Inr () \<longrightarrow> tid t \<in> set (map fst (store w1))"
            by blast
          have one: ?thesis if "w' = w1" "r = r1"
            using that pr po st q1 s1 e1 k1 win
            by (intro exI [of _ "[t]"] exI [of _ Q1] exI [of _ S1]) force
          show ?thesis
          proof (cases r1)
            case (Inl e)
            then have "w' = w1" "r = r1" using run c False b nb p by auto
            then show ?thesis by (rule one)
          next
            case (Inr u)
            show ?thesis
            proof (cases "n + 1 \<ge> m")
              case True
              then have "w' = w1" "r = r1" using run c False b nb p Inr by auto
              then show ?thesis by (rule one)
            next
              case more: False
              then have rec: "tweets_loop h x ac sc m (n + 1) ts w1 = (r, w')"
                using run c False b nb p Inr by auto
              from Cons.IH [OF tr rec] obtain T Q S where
                T: "processing w' = processing w1 @ map tid T"
                   "set T \<subseteq> {t \<in> set ts. in_window h x t \<and> not_own h t}"
                and Q: "posted w' = posted w1 @ Q" and S: "store w' = store w1 @ S"
                and QT: "map snd Q = map tid T \<or> map snd Q = butlast (map tid T)"
                and SQ: "set (map fst S) \<subseteq> set (map snd Q)"
                and R: "r = Inr () \<longrightarrow>
                    map snd Q = map tid T \<and> set (map snd Q) \<subseteq> set (map fst (store w'))"
                by blast
              obtain reply where Q1: "Q1 = [(reply, tid t)]" using q1 e1 Inr by auto
              have kt: "tid t \<in> set (map fst (store w1))" using k1 Inr by simp
              have a: "processing w' = processing w @ map tid (t # T)"
                using T(1) pr by simp
              have b': "set (t # T) \<subseteq> {s \<in> set (t # ts). in_window h x s \<and> not_own h s}"
                using T(2) win by auto
              have c': "posted w' = posted w @ (Q1 @ Q)" using Q po by simp
              have d': "store w' = store w @ (S1 @ S)" using S st by simp
              have e': "map snd (Q1 @ Q) = map tid (t # T)
                        \<or> map snd (Q1 @ Q) = butlast (map tid (t # T))"
                using QT Q1 by (cases T) auto
              have f': "set (map fst (S1 @ S)) \<subseteq> set (map snd (Q1 @ Q))"
                using SQ s1 Q1 by auto
              have g': "r = Inr () \<longrightarrow> map snd (Q1 @ Q) = map tid (t # T)
                        \<and> set (map snd (Q1 @ Q)) \<subseteq> set (map fst (store w'))"
              proof
                assume "r = Inr ()"
                with R have 1: "map snd Q = map tid T"
                  and 2: "set (map snd Q) \<subseteq> set (map fst (store w'))" by blast+
                have 3: "map snd (Q1 @ Q) = map tid (t # T)" using 1 Q1 by simp
                have 4: "set (map snd (Q1 @ Q)) = insert (tid t) (set (map snd Q))"
                  using Q1 by simp
                have 5: "tid t \<in> set (map fst (store w'))" using kt S by simp
                show "map snd (Q1 @ Q) = map tid (t # T)
                      \<and> set (map snd (Q1 @ Q)) \<subseteq> set (map fst (store w'))"
                  by (metis 2 3 4 5 insert_subset)
              qed
              show ?thesis
                using a b' c' d' e' f' g'
                by (intro exI [of _ "t # T"] exI [of _ "Q1 @ Q"] exI [of _ "S1 @ S"]) blast
            qed
          qed
        qed
      qed
    qed
  qed
qed

subsection \<open>The loop and the cycle\<close>

lemma has_responded_succeeds:
  "calls_succeed h x \<Longrightarrow> has_responded_to_tweet h w k = Inr (k \<in> set (recorded w))"
  by (auto simp: calls_succeed_def has_responded_to_tweet_def has_responded_try_def
        collection_get_def recorded_def filter_empty_conv split: option.splits)

lemma send_tweet_succeeds:
  assumes "calls_succeed h x"
  shows "\<exists>j. fst (send_tweet (client h) w body rid) = Inr j"
proof -
  obtain tok where 1: "csrf_token (client_session (client h)) w = Inr tok"
    using assms unfolding calls_succeed_def by blast
  obtain resp j where 2: "http_post (client_session (client h)) w body
      (if py_truthy rid then rid else None) = Inr resp"
    "status_code resp = 200" "json_body resp = Inr j"
    using assms unfolding calls_succeed_def by blast
  show ?thesis using 1 2 by (simp add: send_tweet_def update_headers_with_csrf_def)
qed

lemma log_response_succeeds:
  "calls_succeed h x \<Longrightarrow> fst (log_response h x w i p c t) = Inr ()"
  by (auto simp: calls_succeed_def log_response_def Let_def split: option.splits)

lemma process_tweet_succeeds:
  assumes ok: "calls_succeed h x"
  shows "fst (process_tweet h x ac sc t w) = Inr ()"
proof -
  let ?w1 = "w\<lparr>processing := processing w @ [tid t]\<rparr>"
  obtain p where p: "getTweetResponsePrompt x (tweet_text t) (username t) sc = Inr p"
    using ok unfolding calls_succeed_def by blast
  obtain rc where rc: "(case getUserContext h of None \<Rightarrow> Inr ac
       | Some f \<Rightarrow> (case f ?w1 (username t) of Inl e \<Rightarrow> Inl e
                    | Inr userContext \<Rightarrow> Inr (ac @ userContext))) = Inr rc"
  proof (cases "getUserContext h")
    case None
    then show ?thesis using that by simp
  next
    case (Some f)
    then obtain u where "f ?w1 (username t) = Inr u"
      using ok unfolding calls_succeed_def by force
    then show ?thesis using that Some by simp
  qed
  obtain reply where g: "generate_response h ?w1 p rc = Inr reply"
    using ok unfolding calls_succeed_def by blast
  obtain r2 w2 where s: "send_tweet (client h) ?w1 reply (tid t) = (r2, w2)"
    by (cases "send_tweet (client h) ?w1 reply (tid t)")
  obtain j where j: "r2 = Inr j"
    using send_tweet_succeeds [OF ok, of ?w1 reply "tid t"] s by auto
  have u: "(case updateUserContext h of None \<Rightarrow> None
       | Some f \<Rightarrow> f w2 (username t) (interaction_text (username t) (tweet_text t) reply) ac)
       = None"
  proof (cases "updateUserContext h")
    case None
    then show ?thesis by simp
  next
    case (Some f)
    then have "\<forall>w u i a. f w u i a = None"
      using ok unfolding calls_succeed_def by force
    then show ?thesis using Some by simp
  qed
  have "process_tweet h x ac sc t w
          = log_response h x w2 (tid t) ''PLACEHOLDER'' (tweet_text t) reply"
    using p rc g s j u by (simp add: process_tweet_def Let_def)
  then show ?thesis using log_response_succeeds [OF ok] by simp
qed

lemma loop_succeeds:
  "calls_succeed h x \<Longrightarrow> \<forall>t\<in>set ts. \<exists>c. parse_created_at x t = Inr c \<Longrightarrow>
   fst (tweets_loop h x ac sc m n ts w) = Inr ()"
proof (induction ts arbitrary: n w)
  case Nil
  then show ?case by simp
next
  case (Cons t ts)
  obtain c where c: "parse_created_at x t = Inr c" using Cons.prems(2) by auto
  have rest: "\<forall>t\<in>set ts. \<exists>c. parse_created_at x t = Inr c" using Cons.prems(2) by auto
  note ih = Cons.IH [OF Cons.prems(1) rest]
  note hr = has_responded_succeeds [OF Cons.prems(1), of w "tid t"]
  obtain w1 where p: "process_tweet h x ac sc t w = (Inr (), w1)"
    using process_tweet_succeeds [OF Cons.prems(1), of ac sc t w]
    by (cases "process_tweet h x ac sc t w") auto
  show ?case using c ih hr p by (cases "tid t \<in> set (recorded w)") simp_all
qed

lemma candidates_loop:
  "filter (passes h x w) (sort_key id_key (filter (newer h) found)) = candidates h x w found"
proof -
  have "filter (passes h x w) (filter (newer h) found) = filter (eligible h x w) found"
    by (auto simp: eligible_def passes_def intro: filter_cong)
  then show ?thesis by (simp add: candidates_def filter_sort)
qed

text \<open>The three ways the \<open>try\<close> of \<open>check_mentions\<close> can go once the search has returned.\<close>

lemma cycle_cases:
  assumes "search_tweets_result (client h) w query = Inr found"
  shows "(found = [] \<and> check_mentions_try h x w query ac sc m = (Inr (), w))
    \<or> (\<exists>e. check_mentions_try h x w query ac sc m = (Inl e, w))
    \<or> ((\<forall>t\<in>set found. \<exists>n. py_int (tid t) = Inr n)
       \<and> check_mentions_try h x w query ac sc m
           = tweets_loop h x ac sc m 0 (sort_key id_key (filter (newer h) found)) w)"
proof (cases "found = []")
  case True
  then show ?thesis using assms by (simp add: check_mentions_try_def)
next
  case ne: False
  show ?thesis
  proof (cases "newer_tweets h found")
    case (Inl e)
    then show ?thesis using assms ne by (simp add: check_mentions_try_def)
  next
    case (Inr tweets)
    then have "tweets = filter (newer h) found" "\<forall>t\<in>set found. \<exists>n. py_int (tid t) = Inr n"
      using newer_tweets_filter by blast+
    then show ?thesis using assms ne Inr by (simp add: check_mentions_try_def)
  qed
qed

lemma check_mentions_snd:
  "snd (check_mentions h x w term ac sc m) = snd (check_mentions_try h x w term ac sc m)"
  by (simp add: check_mentions_def split: prod.splits sum.splits)

lemma distinct_tids_sorted:
  "distinct (map tid found) \<Longrightarrow> distinct (map tid (sort_key id_key (filter P found)))"
  by (auto simp: distinct_map inj_on_def)

lemma sorted_truthy:
  assumes "\<forall>t\<in>set found. \<exists>n. py_int (tid t) = Inr n"
  shows "\<forall>t\<in>set (sort_key id_key (filter P found)). py_truthy (tid t)"
  using assms py_int_truthy by fastforce

lemma newer_tweets_total:
  "\<forall>t\<in>set ts. \<exists>n. py_int (tid t) = Inr n \<Longrightarrow> newer_tweets h ts = Inr (filter (newer h) ts)"
  by (induction ts) (auto simp: newer_def)

lemma distinct_take_drop:
  assumes "distinct (map f xs)" and "t \<in> set (drop n xs)"
  shows "f t \<notin> set (map f (take n xs))"
proof -
  have "distinct (map f (take n xs) @ map f (drop n xs))"
    using assms(1) by (simp flip: map_append)
  then have "set (map f (take n xs)) \<inter> set (map f (drop n xs)) = {}"
    by (simp only: distinct_append)
  moreover have "f t \<in> set (map f (drop n xs))" using assms(2) by simp
  ultimately show ?thesis by blast
qed

lemma last_not_in_butlast:
  assumes "distinct P" and "P \<noteq> []"
  shows "last P \<notin> set (butlast P)"
proof -
  have "distinct (butlast P @ [last P])" using assms by simp
  then show ?thesis by (simp only: distinct_append) simp
qed

subsection \<open>The claims\<close>


text \<open>
  C10: with \<open>chroma_client = None\<close> and a search result holding a candidate that passes the
  cursor, timestamp and own-author tests, the dedup lookup raises \<open>AttributeError\<close>, the
  \<open>try\<close> of \<open>check_mentions\<close> ends with an exception, and the method returns with the world
  as it was: no reply posted, no record written.
\<close>

theorem no_chroma_client_aborts_cycle:
  assumes "chroma_client h = None"
    and "search_tweets_result (client h) w term = Inr found"
    and "t \<in> set found"
    and "py_int (tid t) = Inr n" and "cursor h < n"
    and "parse_created_at x t = Inr c" and "\<not> c < start_time h"
    and "username t \<noteq> client_username (client h)"
  shows "has_responded_to_tweet h w (tid t) = Inl AttributeError
    \<and> (\<exists>e. check_mentions_try h x w term ac sc m = (Inl e, w))
    \<and> check_mentions h x w term ac sc m = (Inr (), w)"
proof -
  have a: "has_responded_to_tweet h w (tid t) = Inl AttributeError"
    using assms(1) by (simp add: has_responded_to_tweet_def has_responded_try_def)
  have ne: "found \<noteq> []" using assms(3) by auto
  have b: "\<exists>e. check_mentions_try h x w term ac sc m = (Inl e, w)"
  proof (cases "newer_tweets h found")
    case (Inl e)
    then show ?thesis using assms(2) ne by (simp add: check_mentions_try_def)
  next
    case (Inr tweets)
    then have "tweets = filter (newer h) found" using newer_tweets_filter by blast
    then have mem: "t \<in> set (sort_key id_key tweets)"
      using assms(3,4,5) by (simp add: newer_def)
    obtain r w' where l: "tweets_loop h x ac sc m 0 (sort_key id_key tweets) w = (r, w')"
      by (cases "tweets_loop h x ac sc m 0 (sort_key id_key tweets) w")
    have "w' = w" using loop_no_chroma [OF assms(1) l] .
    moreover have "\<exists>e. r = Inl e"
      using loop_no_chroma_abort [OF assms(1) mem assms(6,7,8), of ac sc m 0 w] l by simp
    ultimately show ?thesis using assms(2) ne Inr l by (auto simp: check_mentions_try_def)
  qed
  from b have "check_mentions h x w term ac sc m = (Inr (), w)"
    by (auto simp: check_mentions_def)
  with a b show ?thesis by blast
qed

theorem no_chroma_client_aborts_cycle_witness:
  "has_responded_to_tweet (ex_handler [t5, t3, t7] (Some ex_generator) None None) w0 (tid t5)
     = Inl AttributeError
   \<and> check_mentions (ex_handler [t5, t3, t7] (Some ex_generator) None None) ex_externals w0
       ''@rice_bot'' [] [] 3 = (Inr (), w0)"
proof -
  let ?h = "ex_handler [t5, t3, t7] (Some ex_generator) None None"
  have 1: "chroma_client ?h = None" by code_simp
  have 2: "search_tweets_result (client ?h) w0 ''@rice_bot'' = Inr [t5, t3, t7]" by code_simp
  have 3: "t5 \<in> set [t5, t3, t7]" by simp
  have 4: "py_int (tid t5) = Inr 5" by code_simp
  have 5: "cursor ?h < 5" by code_simp
  have 6: "parse_created_at ex_externals t5 = Inr 1793790000000000" by code_simp
  have 7: "\<not> 1793790000000000 < start_time ?h" by code_simp
  have 8: "username t5 \<noteq> client_username (client ?h)" by code_simp
  show ?thesis
    using no_chroma_client_aborts_cycle [OF 1 2 3 4 5 6 7 8, of "[]" "[]" 3] by simp
qed

text \<open>
  C1, as stated (every eligible candidate reaches the reply pipeline), fails: of the two
  eligible candidates 5 and 7 of the run, only 5 is processed when \<open>maxReplies\<close> is 1.
\<close>

theorem reply_pipeline_stops_at_max_replies:
  "search_tweets_result (client ex_h) w0 ''@rice_bot'' = Inr ex_found
   \<and> map tid (candidates ex_h ex_externals w0 ex_found) = [Some ''5'', Some ''7'']
   \<and> processing w0 = []
   \<and> processing (snd (check_mentions ex_h ex_externals w0 ''@rice_bot'' [] [] 1)) = [Some ''5'']"
  by code_simp

text \<open>
  C1, amended: for a search result with pairwise distinct ids, the candidates that reach
  the reply pipeline are an initial segment, at most \<open>max(1, maxReplies)\<close> long, of the
  eligible candidates (id above the cursor, timestamp not before \<open>start_time\<close>, author not
  the engine's own account, no record reported by the dedup predicate at the start of the
  cycle) in ascending order of id; when no statement of the cycle raises, they are exactly
  the first \<open>max(1, maxReplies)\<close> of them.
\<close>

theorem reply_pipeline_is_capped_prefix_of_candidates:
  assumes found: "search_tweets_result (client h) w query = Inr found"
    and dist: "distinct (map tid found)"
    and run: "check_mentions h x w query ac sc m = (r, w')"
  shows "(\<exists>k \<le> nat (max 1 m).
            processing w' = processing w @ map tid (take k (candidates h x w found)))
    \<and> ((\<exists>u. fst (check_mentions_try h x w query ac sc m) = Inr u) \<longrightarrow>
          processing w' =
            processing w @ map tid (take (nat (max 1 m)) (candidates h x w found)))
    \<and> sorted (map id_key (candidates h x w found))
    \<and> set (candidates h x w found) = {t \<in> set found. eligible h x w t}"
proof -
  have w': "w' = snd (check_mentions_try h x w query ac sc m)"
    using run check_mentions_snd [of h x w query ac sc m] by simp
  have order: "sorted (map id_key (candidates h x w found))"
    by (simp add: candidates_def)
  have members: "set (candidates h x w found) = {t \<in> set found. eligible h x w t}"
    by (auto simp: candidates_def)
  have "(\<exists>k \<le> nat (max 1 m).
            processing w' = processing w @ map tid (take k (candidates h x w found)))
    \<and> ((\<exists>u. fst (check_mentions_try h x w query ac sc m) = Inr u) \<longrightarrow>
          processing w' =
            processing w @ map tid (take (nat (max 1 m)) (candidates h x w found)))"
  proof -
    consider (Empty) "found = []" "check_mentions_try h x w query ac sc m = (Inr (), w)"
      | (Bad_id) e where "check_mentions_try h x w query ac sc m = (Inl e, w)"
      | (Loop) "\<forall>t\<in>set found. \<exists>n. py_int (tid t) = Inr n"
          "check_mentions_try h x w query ac sc m
             = tweets_loop h x ac sc m 0 (sort_key id_key (filter (newer h) found)) w"
      using cycle_cases [OF found] by blast
    then show ?thesis
    proof cases
    case Empty
    then show ?thesis using w' by (intro conjI exI [of _ 0]) (auto simp: candidates_def)
  next
    case (Bad_id e)
    then show ?thesis using w' by (intro conjI exI [of _ 0]) auto
  next
    case Loop
    let ?ts = "sort_key id_key (filter (newer h) found)"
    obtain r0 where l: "tweets_loop h x ac sc m 0 ?ts w = (r0, w')"
      using Loop(2) w' by (cases "tweets_loop h x ac sc m 0 ?ts w") auto
    have r0: "fst (check_mentions_try h x w query ac sc m) = r0" using Loop(2) l by simp
    from loop_processing [OF distinct_tids_sorted [OF dist] l]
    show ?thesis unfolding candidates_loop r0 by auto
  qed
  qed
  with order members show ?thesis by blast
qed

theorem reply_pipeline_is_capped_prefix_of_candidates_witness:
  "search_tweets_result (client ex_h) w0 ''@rice_bot'' = Inr ex_found
   \<and> distinct (map tid ex_found)
   \<and> fst (check_mentions_try ex_h ex_externals w0 ''@rice_bot'' [] [] 1) = Inr ()
   \<and> processing (snd (check_mentions ex_h ex_externals w0 ''@rice_bot'' [] [] 1))
       = processing w0 @ map tid (take (nat (max 1 1)) (candidates ex_h ex_externals w0 ex_found))"
proof -
  have 1: "search_tweets_result (client ex_h) w0 ''@rice_bot'' = Inr ex_found" by code_simp
  have 2: "distinct (map tid ex_found)" by code_simp
  have 3: "check_mentions ex_h ex_externals w0 ''@rice_bot'' [] [] 1
      = (fst (check_mentions ex_h ex_externals w0 ''@rice_bot'' [] [] 1), snd (check_mentions ex_h ex_externals w0 ''@rice_bot'' [] [] 1))" by simp
  have 4: "fst (check_mentions_try ex_h ex_externals w0 ''@rice_bot'' [] [] 1) = Inr ()" by code_simp
  show ?thesis
    using 1 2 4 reply_pipeline_is_capped_prefix_of_candidates [OF 1 2 3] by blast
qed

text \<open>
  C2, as stated (\<open>start_time\<close> is the instant of construction, and nothing created before
  it is answered), fails: the handler constructed at 12:00:00 has a \<open>start_time\<close> that is
  not that instant, and it replies to tweet 5, created at 11:00:00.
\<close>

theorem replies_to_tweet_created_before_construction:
  "ex_init ex_found (Some ex_generator) (Some ex_chroma) None = Inr ex_h
   \<and> start_time ex_h \<noteq> ex_now
   \<and> parse_created_at ex_externals t5 = Inr 1793790000000000
   \<and> (1793790000000000 :: int) < ex_now
   \<and> posted (snd (check_mentions ex_h ex_externals w0 ''@rice_bot'' [] [] 3)) = [(''gm'', tid t5), (''gm'', tid t7)]"
proof -
  have 1: "ex_init ex_found (Some ex_generator) (Some ex_chroma) None = Inr ex_h"
    by (simp add: ex_h_def ex_handler_def ex_init_def init_def load_last_checked_tweet_id_def)
  have 2: "start_time ex_h \<noteq> ex_now" by code_simp
  have 3: "parse_created_at ex_externals t5 = Inr 1793790000000000" by code_simp
  have 4: "(1793790000000000 :: int) < ex_now" by code_simp
  have 5: "posted (snd (check_mentions ex_h ex_externals w0 ''@rice_bot'' [] [] 3)) = [(''gm'', tid t5), (''gm'', tid t7)]"
    by code_simp
  show ?thesis using 1 2 3 4 5 by blast
qed

text \<open>
  C2, amended: \<open>start_time\<close> is the instant of construction minus 24 hours, and every reply
  a \<open>check_mentions\<close> call posts answers a candidate of the search result whose
  \<open>created_at\<close> is not before that instant, whatever the store holds.
\<close>

theorem session_window_starts_24h_before_construction:
  assumes built: "init c rg chroma terms targets guc fc uuc file now = Inr h"
    and found: "search_tweets_result (client h) w query = Inr found"
    and run: "check_mentions h x w query ac sc m = (r, w')"
  shows "start_time h = now - hours24
    \<and> (\<exists>Q. posted w' = posted w @ Q
          \<and> (\<forall>q\<in>set Q. \<exists>t\<in>set found. snd q = tid t
                \<and> (\<exists>created. parse_created_at x t = Inr created \<and> now - hours24 \<le> created)))"
proof -
  have st: "start_time h = now - hours24"
    using built by (auto simp: init_def split: sum.splits)
  have w': "w' = snd (check_mentions_try h x w query ac sc m)"
    using run check_mentions_snd [of h x w query ac sc m] by simp
  have "\<exists>Q. posted w' = posted w @ Q
          \<and> (\<forall>q\<in>set Q. \<exists>t\<in>set found. snd q = tid t \<and> in_window h x t)"
  proof -
    consider (Empty) "found = []" "check_mentions_try h x w query ac sc m = (Inr (), w)"
      | (Bad_id) e where "check_mentions_try h x w query ac sc m = (Inl e, w)"
      | (Loop) "\<forall>t\<in>set found. \<exists>n. py_int (tid t) = Inr n"
          "check_mentions_try h x w query ac sc m
             = tweets_loop h x ac sc m 0 (sort_key id_key (filter (newer h) found)) w"
      using cycle_cases [OF found] by blast
    then show ?thesis
    proof cases
    case Empty
    then show ?thesis using w' by (intro exI [of _ "[]"]) simp
  next
    case (Bad_id e)
    then show ?thesis using w' by (intro exI [of _ "[]"]) simp
  next
    case Loop
    let ?ts = "sort_key id_key (filter (newer h) found)"
    obtain r0 where l: "tweets_loop h x ac sc m 0 ?ts w = (r0, w')"
      using Loop(2) w' by (cases "tweets_loop h x ac sc m 0 ?ts w") auto
    from loop_shape [OF sorted_truthy [OF Loop(1)] l] obtain T Q where
      T: "set T \<subseteq> {t \<in> set ?ts. in_window h x t \<and> not_own h t}"
      and Q: "posted w' = posted w @ Q"
      and QT: "map snd Q = map tid T \<or> map snd Q = butlast (map tid T)"
      by blast
    have "\<exists>t\<in>set found. snd q = tid t \<and> in_window h x t" if "q \<in> set Q" for q
    proof -
      have "snd q \<in> set (map snd Q)" using that by simp
      then have "snd q \<in> set (map tid T)" using QT by (metis in_set_butlastD)
      then obtain t where "t \<in> set T" "snd q = tid t" by auto
      then show ?thesis using T by auto
    qed
    then show ?thesis using Q by blast
  qed
  qed
  then obtain Q where Q: "posted w' = posted w @ Q"
    and win: "\<forall>q\<in>set Q. \<exists>t\<in>set found. snd q = tid t \<and> in_window h x t" by blast
  have "\<forall>q\<in>set Q. \<exists>t\<in>set found. snd q = tid t
          \<and> (\<exists>created. parse_created_at x t = Inr created \<and> now - hours24 \<le> created)"
  proof
    fix q assume "q \<in> set Q"
    then obtain t where t: "t \<in> set found" "snd q = tid t" "in_window h x t" using win by blast
    then obtain created where "parse_created_at x t = Inr created" "\<not> created < start_time h"
      by (auto simp: in_window_def split: sum.splits)
    then show "\<exists>t\<in>set found. snd q = tid t
          \<and> (\<exists>created. parse_created_at x t = Inr created \<and> now - hours24 \<le> created)"
      using t st by auto
  qed
  with st Q show ?thesis by blast
qed

theorem session_window_starts_24h_before_construction_witness:
  "start_time ex_h = ex_now - hours24
   \<and> (\<exists>Q. posted (snd (check_mentions ex_h ex_externals w0 ''@rice_bot'' [] [] 3)) = posted w0 @ Q
         \<and> (\<forall>q\<in>set Q. \<exists>t\<in>set ex_found. snd q = tid t
               \<and> (\<exists>created. parse_created_at ex_externals t = Inr created
                    \<and> ex_now - hours24 \<le> created)))"
proof -
  have 1: "init (ex_client ex_found) (Some ex_generator) (Some ex_chroma) [''@rice_bot''] []
             None None None (Inr (Some 3)) ex_now = Inr ex_h"
    by (simp add: ex_h_def ex_handler_def ex_init_def init_def load_last_checked_tweet_id_def)
  have 2: "search_tweets_result (client ex_h) w0 ''@rice_bot'' = Inr ex_found" by code_simp
  have 3: "check_mentions ex_h ex_externals w0 ''@rice_bot'' [] [] 3
      = (fst (check_mentions ex_h ex_externals w0 ''@rice_bot'' [] [] 3), snd (check_mentions ex_h ex_externals w0 ''@rice_bot'' [] [] 3))" by simp
  show ?thesis
    using session_window_starts_24h_before_construction [OF 1 2 3] by blast
qed

text \<open>
  C3, as stated (with \<open>maxReplies = m\<close> and at least \<open>m\<close> eligible candidates, exactly \<open>m\<close>
  replies are posted), fails for \<open>m = 0\<close>: the test \<open>nResponses >= maxReplies\<close> comes after
  the first reply, so one reply is posted.
\<close>

theorem max_replies_zero_still_posts_one:
  "calls_succeed ex_h ex_externals
   \<and> well_formed ex_externals ex_found
   \<and> length (candidates ex_h ex_externals w0 ex_found) = 2
   \<and> posted w0 = []
   \<and> posted (snd (check_mentions ex_h ex_externals w0 ''@rice_bot'' [] [] 0)) = [(''gm'', Some ''5'')]"
proof -
  have 1: "calls_succeed ex_h ex_externals"
    by (simp add: calls_succeed_def ex_h_def ex_handler_def ex_init_def init_def
          load_last_checked_tweet_id_def ex_chroma_def ex_externals_def generate_response_def
          call_response_generator_def ex_generator_def ex_client_def TwitterClient_def
          ex_session_def ok_response_def)
  have 2: "well_formed ex_externals ex_found"
    by (simp add: well_formed_def ex_found_def t5_def t3_def t7_def ex_tweet_def
          parse_created_at_def ex_externals_def ex_strptime_def py_int_def py_int_str_def
          py_strip_def py_isspace_def py_unsigned_def py_digit_def)
  have 3: "length (candidates ex_h ex_externals w0 ex_found) = 2" by code_simp
  have 4: "posted w0 = []" by code_simp
  have 5: "posted (snd (check_mentions ex_h ex_externals w0 ''@rice_bot'' [] [] 0)) = [(''gm'', Some ''5'')]" by code_simp
  show ?thesis using 1 2 3 4 5 by blast
qed

text \<open>
  C3, amended: with \<open>maxReplies = m\<close>, \<open>m\<close> at least 1, a search result with pairwise
  distinct ids that all parse, at least \<open>m\<close> eligible candidates and no collaborator call
  raising, exactly \<open>m\<close> replies are posted, to the first \<open>m\<close> eligible candidates in
  ascending order of id, and for each remaining eligible candidate no reply is posted and
  no record is written.
\<close>

theorem max_replies_posts_exactly_m:
  assumes ok: "calls_succeed h x"
    and found: "search_tweets_result (client h) w query = Inr found"
    and wf: "well_formed x found"
    and dist: "distinct (map tid found)"
    and m1: "1 \<le> m"
    and mN: "nat m \<le> length (candidates h x w found)"
    and run: "check_mentions h x w query ac sc m = (r, w')"
  shows "\<exists>Q S. posted w' = posted w @ Q \<and> length Q = nat m
    \<and> map snd Q = map tid (take (nat m) (candidates h x w found))
    \<and> store w' = store w @ S
    \<and> (\<forall>t\<in>set (drop (nat m) (candidates h x w found)).
          tid t \<notin> set (map snd Q) \<and> tid t \<notin> set (map fst S))"
proof -
  let ?ts = "sort_key id_key (filter (newer h) found)"
  let ?cs = "candidates h x w found"
  have w': "w' = snd (check_mentions_try h x w query ac sc m)"
    using run check_mentions_snd [of h x w query ac sc m] by simp
  have ne: "found \<noteq> []"
  proof
    assume "found = []"
    then have "?cs = []" by (simp add: candidates_def)
    then show False using m1 mN by simp
  qed
  have ids: "\<forall>t\<in>set found. \<exists>n. py_int (tid t) = Inr n"
    and dates: "\<forall>t\<in>set ?ts. \<exists>c. parse_created_at x t = Inr c"
    using wf by (auto simp: well_formed_def)
  have "check_mentions_try h x w query ac sc m = tweets_loop h x ac sc m 0 ?ts w"
    using found ne newer_tweets_total [OF ids] by (simp add: check_mentions_try_def)
  then obtain r0 where l: "tweets_loop h x ac sc m 0 ?ts w = (r0, w')"
    using w' by (cases "tweets_loop h x ac sc m 0 ?ts w") auto
  have r0: "r0 = Inr ()"
    using loop_succeeds [OF ok dates, of ac sc m 0 w] l by simp
  have K: "nat (max 1 (m - 0)) = nat m" using m1 by simp
  have P: "processing w' = processing w @ map tid (take (nat m) ?cs)"
    using loop_processing [OF distinct_tids_sorted [OF dist] l] r0
    unfolding candidates_loop K by blast
  from loop_shape [OF sorted_truthy [OF ids] l] obtain T Q S where
    sh: "processing w' = processing w @ map tid T
     \<and> set T \<subseteq> {t \<in> set ?ts. in_window h x t \<and> not_own h t}
     \<and> posted w' = posted w @ Q \<and> store w' = store w @ S
     \<and> (map snd Q = map tid T \<or> map snd Q = butlast (map tid T))
     \<and> set (map fst S) \<subseteq> set (map snd Q)
     \<and> (r0 = Inr () \<longrightarrow> map snd Q = map tid T \<and> set (map snd Q) \<subseteq> set (map fst (store w')))"
    by (elim exE) (rule that)
  have T: "processing w' = processing w @ map tid T"
    and Q: "posted w' = posted w @ Q" and S: "store w' = store w @ S"
    and SQ: "set (map fst S) \<subseteq> set (map snd Q)"
    and QT: "map snd Q = map tid T"
    using sh r0 by blast+
  have QP: "map snd Q = map tid (take (nat m) ?cs)" using P T QT by simp
  have "length (map snd Q) = nat m" unfolding QP using mN by simp
  then have len: "length Q = nat m" by simp
  have dc: "distinct (map tid ?cs)"
    unfolding candidates_def by (rule distinct_tids_sorted [OF dist])
  have rest: "tid t \<notin> set (map snd Q) \<and> tid t \<notin> set (map fst S)"
    if "t \<in> set (drop (nat m) ?cs)" for t
    using distinct_take_drop [OF dc that] SQ unfolding QP by blast
  show ?thesis using Q len QP S rest by blast
qed

theorem max_replies_posts_exactly_m_witness:
  "(1 :: int) \<le> 2 \<and> nat 2 \<le> length (candidates ex_h ex_externals w0 ex_found)
   \<and> (\<exists>Q S. posted (snd (check_mentions ex_h ex_externals w0 ''@rice_bot'' [] [] 2)) = posted w0 @ Q \<and> length Q = nat 2
         \<and> map snd Q = map tid (take (nat 2) (candidates ex_h ex_externals w0 ex_found))
         \<and> store (snd (check_mentions ex_h ex_externals w0 ''@rice_bot'' [] [] 2)) = store w0 @ S
         \<and> (\<forall>t\<in>set (drop (nat 2) (candidates ex_h ex_externals w0 ex_found)).
               tid t \<notin> set (map snd Q) \<and> tid t \<notin> set (map fst S)))"
proof -
  have 1: "calls_succeed ex_h ex_externals"
    by (simp add: calls_succeed_def ex_h_def ex_handler_def ex_init_def init_def
          load_last_checked_tweet_id_def ex_chroma_def ex_externals_def generate_response_def
          call_response_generator_def ex_generator_def ex_client_def TwitterClient_def
          ex_session_def ok_response_def)
  have 2: "search_tweets_result (client ex_h) w0 ''@rice_bot'' = Inr ex_found" by code_simp
  have 3: "well_formed ex_externals ex_found"
    by (simp add: well_formed_def ex_found_def t5_def t3_def t7_def ex_tweet_def
          parse_created_at_def ex_externals_def ex_strptime_def py_int_def py_int_str_def
          py_strip_def py_isspace_def py_unsigned_def py_digit_def)
  have 4: "distinct (map tid ex_found)" by code_simp
  have 5: "(1 :: int) \<le> 2" by simp
  have 6: "nat 2 \<le> length (candidates ex_h ex_externals w0 ex_found)" by code_simp
  have 7: "check_mentions ex_h ex_externals w0 ''@rice_bot'' [] [] 2
      = (fst (check_mentions ex_h ex_externals w0 ''@rice_bot'' [] [] 2), snd (check_mentions ex_h ex_externals w0 ''@rice_bot'' [] [] 2))" by simp
  show ?thesis
    using 5 6 max_replies_posts_exactly_m [OF 1 2 3 4 5 6 7] by blast
qed

text \<open>
  C4, as stated (a record is written if and only if a reply was posted), fails: when
  \<open>updateUserContext\<close> raises after the reply to tweet 5 has been posted, the cycle ends
  with the reply on the platform and no record in the store.
\<close>

theorem posted_reply_left_unrecorded:
  "posted (snd (check_mentions ex_h_update_raises ex_externals w0 ''@rice_bot'' [] [] 3)) = [(''gm'', Some ''5'')]
   \<and> store (snd (check_mentions ex_h_update_raises ex_externals w0 ''@rice_bot'' [] [] 3)) = []"
  by code_simp

text \<open>
  C4, amended: within one cycle a record is written only for a candidate whose reply was
  posted in that cycle. Every candidate that entered the pipeline has its reply posted,
  except possibly the last one entered: a candidate whose posting raised ends the batch,
  and (ids being distinct) it is not recorded. When no statement of the cycle raises, every
  candidate that entered the pipeline has its reply posted and its record in the store.
\<close>

theorem record_written_only_if_posted:
  assumes run: "check_mentions h x w query ac sc m = (r, w')"
  shows "\<exists>P Q S. processing w' = processing w @ P \<and> posted w' = posted w @ Q
    \<and> store w' = store w @ S
    \<and> set (map fst S) \<subseteq> set (map snd Q)
    \<and> (map snd Q = P \<or> map snd Q = butlast P)
    \<and> (map snd Q \<noteq> P \<and> distinct P \<longrightarrow> last P \<notin> set (map fst S))
    \<and> ((\<exists>u. fst (check_mentions_try h x w query ac sc m) = Inr u) \<longrightarrow>
          map snd Q = P \<and> set (map snd Q) \<subseteq> set (recorded w'))"
proof -
  have w': "w' = snd (check_mentions_try h x w query ac sc m)"
    using run check_mentions_snd [of h x w query ac sc m] by simp
  have still: ?thesis if "check_mentions_try h x w query ac sc m = (r0, w)" for r0
  proof -
    have "w' = w" using that w' by simp
    then show ?thesis
      by (intro exI [of _ "[]"]) simp
  qed
  show ?thesis
  proof (cases "search_tweets_result (client h) w query")
    case (Inl e)
    then have "check_mentions_try h x w query ac sc m = (Inl e, w)"
      by (simp add: check_mentions_try_def)
    then show ?thesis by (rule still)
  next
    case (Inr found)
    consider (Empty) "found = []" "check_mentions_try h x w query ac sc m = (Inr (), w)"
      | (Bad_id) e where "check_mentions_try h x w query ac sc m = (Inl e, w)"
      | (Loop) "\<forall>t\<in>set found. \<exists>n. py_int (tid t) = Inr n"
          "check_mentions_try h x w query ac sc m
             = tweets_loop h x ac sc m 0 (sort_key id_key (filter (newer h) found)) w"
      using cycle_cases [OF Inr] by blast
    then show ?thesis
    proof cases
      case Empty
      then show ?thesis using still by blast
    next
      case (Bad_id e)
      then show ?thesis using still by blast
    next
      case Loop
      let ?ts = "sort_key id_key (filter (newer h) found)"
      obtain r0 where l: "tweets_loop h x ac sc m 0 ?ts w = (r0, w')"
        using Loop(2) w' by (cases "tweets_loop h x ac sc m 0 ?ts w") auto
      have r0: "fst (check_mentions_try h x w query ac sc m) = r0" using Loop(2) l by simp
      from loop_shape [OF sorted_truthy [OF Loop(1)] l] obtain T Q S where
        sh: "processing w' = processing w @ map tid T
         \<and> set T \<subseteq> {t \<in> set ?ts. in_window h x t \<and> not_own h t}
         \<and> posted w' = posted w @ Q \<and> store w' = store w @ S
         \<and> (map snd Q = map tid T \<or> map snd Q = butlast (map tid T))
         \<and> set (map fst S) \<subseteq> set (map snd Q)
         \<and> (r0 = Inr () \<longrightarrow> map snd Q = map tid T \<and> set (map snd Q) \<subseteq> set (map fst (store w')))"
        by (elim exE) (rule that)
      have unrecorded: "last (map tid T) \<notin> set (map fst S)"
        if "map snd Q \<noteq> map tid T \<and> distinct (map tid T)"
      proof -
        have "map snd Q = butlast (map tid T)" and "map tid T \<noteq> []"
          using sh that by auto
        then show ?thesis
          using sh last_not_in_butlast [of "map tid T"] that by auto
      qed
      have "processing w' = processing w @ map tid T \<and> posted w' = posted w @ Q
        \<and> store w' = store w @ S
        \<and> set (map fst S) \<subseteq> set (map snd Q)
        \<and> (map snd Q = map tid T \<or> map snd Q = butlast (map tid T))
        \<and> (map snd Q \<noteq> map tid T \<and> distinct (map tid T)
             \<longrightarrow> last (map tid T) \<notin> set (map fst S))
        \<and> ((\<exists>u. r0 = Inr u) \<longrightarrow>
              map snd Q = map tid T \<and> set (map snd Q) \<subseteq> set (map fst (store w')))"
      proof -
        have "(\<exists>u. r0 = Inr u) \<longrightarrow> r0 = Inr ()" by simp
        with sh unrecorded show ?thesis by blast
      qed
      then show ?thesis unfolding r0 recorded_def
        by (intro exI [of _ "map tid T"] exI [of _ Q] exI [of _ S])
    qed
  qed
qed

theorem record_written_only_if_posted_witness:
  "\<exists>P Q S. processing (snd (check_mentions ex_h_update_raises ex_externals w0 ''@rice_bot'' [] [] 3)) = processing w0 @ P
     \<and> posted (snd (check_mentions ex_h_update_raises ex_externals w0 ''@rice_bot'' [] [] 3)) = posted w0 @ Q
     \<and> store (snd (check_mentions ex_h_update_raises ex_externals w0 ''@rice_bot'' [] [] 3)) = store w0 @ S
     \<and> set (map fst S) \<subseteq> set (map snd Q)
     \<and> (map snd Q = P \<or> map snd Q = butlast P)"
proof -
  have 1: "check_mentions ex_h_update_raises ex_externals w0 ''@rice_bot'' [] [] 3
      = (fst (check_mentions ex_h_update_raises ex_externals w0 ''@rice_bot'' [] [] 3), snd (check_mentions ex_h_update_raises ex_externals w0 ''@rice_bot'' [] [] 3))" by simp
  show ?thesis
    using record_written_only_if_posted [OF 1] by blast
qed

end
